theory Spec2Isabelle
  imports Main "HOL-Library.Word"
begin

unbundle bit_operations_syntax

text \<open>
  AKARI-Markdown.js is a custom element that renders Markdown arriving in bursts into a
  live tree. This theory embeds the parts of \<open>akari-markdown.js\<close> that decide what the tree
  holds: the fingerprint, the placeholder codec, the fence completeness detector, the
  fence callback, a pass, the reconciler and the callback of the diagram timer. Where the
  releases v1.2.0 and v1.1.0 differ, the definitions take the release as an argument.
  The browser and the libraries the element calls are parameters of the model.
\<close>

section \<open>JavaScript strings\<close>

text \<open>
  A JavaScript string is a sequence of 16-bit code units; \<open>charCodeAt\<close> reads one unit and
  the regular expressions of the source (none has the \<open>u\<close> flag) work on units.
  \<open>js\<close> turns an ASCII literal into such a string.
\<close>

type_synonym unit16 = "16 word"
type_synonym jsstring = "unit16 list"

definition js :: "string \<Rightarrow> jsstring" where
  "js s = map (\<lambda>c. of_nat (of_char c)) s"

text \<open>White space and line terminators, as \<open>String.prototype.trim\<close> and the class \<open>\s\<close> see them.\<close>

definition is_js_space :: "unit16 \<Rightarrow> bool" where
  "is_js_space c =
     (c = 0x09 \<or> c = 0x0A \<or> c = 0x0B \<or> c = 0x0C \<or> c = 0x0D \<or> c = 0x20 \<or> c = 0xA0
      \<or> c = 0x1680 \<or> (0x2000 \<le> c \<and> c \<le> 0x200A) \<or> c = 0x2028 \<or> c = 0x2029
      \<or> c = 0x202F \<or> c = 0x205F \<or> c = 0x3000 \<or> c = 0xFEFF)"

definition trim :: "jsstring \<Rightarrow> jsstring" where
  "trim s = rev (dropWhile is_js_space (rev (dropWhile is_js_space s)))"

text \<open>\<open>s.startsWith(p)\<close>, and \<open>s.includes(p)\<close> as a scan over the suffixes of \<open>s\<close>.\<close>

fun starts_with :: "'a list \<Rightarrow> 'a list \<Rightarrow> bool" where
  "starts_with s [] = True"
| "starts_with [] (p # ps) = False"
| "starts_with (c # cs) (p # ps) = (c = p \<and> starts_with cs ps)"

fun str_includes :: "'a list \<Rightarrow> 'a list \<Rightarrow> bool" where
  "str_includes [] p = (p = [])"
| "str_includes (c # cs) p = (starts_with (c # cs) p \<or> str_includes cs p)"

text \<open>
  Number to string: radix 10 for the template literals, radix 36 for \<open>toString(36)\<close>.
  The source uses no other radix; below 2 (where JavaScript raises) the recursion stops.
\<close>

definition digit_unit :: "int \<Rightarrow> unit16" where
  "digit_unit d = (if d < 10 then of_int (48 + d) else of_int (87 + d))"

function digits_radix :: "int \<Rightarrow> int \<Rightarrow> jsstring" where
  "digits_radix r n =
     (if n < r \<or> r < 2 then [digit_unit n]
      else digits_radix r (n div r) @ [digit_unit (n mod r)])"
  by pat_completeness auto
termination
  by (relation "measure (\<lambda>(r, n). nat n)") (auto simp: int_div_less_self)

declare digits_radix.simps [simp del]

definition nat_toString :: "int \<Rightarrow> nat \<Rightarrow> jsstring" where
  "nat_toString r n = digits_radix r (int n)"

definition int_toString :: "int \<Rightarrow> int \<Rightarrow> jsstring" where
  "int_toString r i = (if i < 0 then js ''-'' @ digits_radix r (- i) else digits_radix r i)"

section \<open>Fingerprint: \<open>_hashCode\<close>\<close>

text \<open>
  \<^verbatim>\<open>
  _hashCode(str) {
      let hash = 0;
      for (let i = 0; i < str.length; i++) {
          const char = str.charCodeAt(i);
          hash = ((hash << 5) - hash) + char;
          hash = hash & hash;
      }
      return hash.toString(36);
  }
  \<close>
  \<open>hash << 5\<close> and \<open>hash & hash\<close> are 32-bit operations; the subtraction and the sum between
  them are exact in a double (all operands are below \<open>2 ^ 33\<close>) and \<open>&\<close> reduces the result
  modulo \<open>2 ^ 32\<close>, so the loop body is arithmetic on a 32-bit word, read as signed at the end.
\<close>

fun hashLoop :: "32 word \<Rightarrow> jsstring \<Rightarrow> 32 word" where
  "hashLoop hash [] = hash"
| "hashLoop hash (char # rest) =
     (let hash1 = (push_bit 5 hash - hash) + ucast char;
          hash2 = hash1 AND hash1
      in hashLoop hash2 rest)"

definition hashCode :: "jsstring \<Rightarrow> jsstring" where
  "hashCode str = int_toString 36 (sint (hashLoop 0 str))"

section \<open>The rendered tree\<close>

text \<open>
  The child nodes of the live container and of the template that \<open>innerHTML\<close> fills are
  text nodes, elements and comments. An element carries its \<open>tagName\<close>, its attributes in
  order, and its children.
\<close>

datatype node =
    TextNode jsstring
  | ElementNode jsstring "(jsstring \<times> jsstring) list" "node list"
  | CommentNode jsstring

datatype nodeKind = ELEMENT_NODE | TEXT_NODE | COMMENT_NODE

fun nodeType :: "node \<Rightarrow> nodeKind" where
  "nodeType (TextNode d) = TEXT_NODE"
| "nodeType (ElementNode t as cs) = ELEMENT_NODE"
| "nodeType (CommentNode d) = COMMENT_NODE"

text \<open>\<open>tagName\<close> is \<open>undefined\<close> (here \<open>None\<close>) on a node that is not an element.\<close>

fun tagName :: "node \<Rightarrow> jsstring option" where
  "tagName (ElementNode t as cs) = Some t"
| "tagName n = None"

fun textContent :: "node \<Rightarrow> jsstring"
  and textContents :: "node list \<Rightarrow> jsstring" where
  "textContent (TextNode d) = d"
| "textContent (CommentNode d) = d"
| "textContent (ElementNode t as cs) = textContents cs"
| "textContents [] = []"
| "textContents (TextNode d # ns) = d @ textContents ns"
| "textContents (CommentNode d # ns) = textContents ns"
| "textContents (ElementNode t as cs # ns) = textContents cs @ textContents ns"

text \<open>\<open>oldNode.textContent = v\<close> on a text node replaces its data.\<close>

fun set_textContent :: "node \<Rightarrow> jsstring \<Rightarrow> node" where
  "set_textContent (TextNode d) v = TextNode v"
| "set_textContent (CommentNode d) v = CommentNode v"
| "set_textContent (ElementNode t as cs) v = ElementNode t as (if v = [] then [] else [TextNode v])"

fun getAttribute :: "node \<Rightarrow> jsstring \<Rightarrow> jsstring option" where
  "getAttribute (ElementNode t as cs) name = map_of as name"
| "getAttribute n name = None"

definition className :: "node \<Rightarrow> jsstring" where
  "className n = (case getAttribute n (js ''class'') of None \<Rightarrow> [] | Some v \<Rightarrow> v)"

text \<open>\<open>classList\<close> is the \<open>class\<close> attribute split at ASCII white space.\<close>

definition is_ascii_ws :: "unit16 \<Rightarrow> bool" where
  "is_ascii_ws c = (c = 0x09 \<or> c = 0x0A \<or> c = 0x0C \<or> c = 0x0D \<or> c = 0x20)"

fun class_tokens :: "jsstring \<Rightarrow> jsstring \<Rightarrow> jsstring list" where
  "class_tokens cur [] = (if cur = [] then [] else [cur])"
| "class_tokens cur (c # cs) =
     (if is_ascii_ws c then (if cur = [] then class_tokens [] cs else cur # class_tokens [] cs)
      else class_tokens (cur @ [c]) cs)"

definition classList_contains :: "node \<Rightarrow> jsstring \<Rightarrow> bool" where
  "classList_contains n tok = (tok \<in> set (class_tokens [] (className n)))"

text \<open>\<open>node.dataset.rendered\<close> is the attribute \<open>data-rendered\<close>.\<close>

definition dataset_rendered :: "node \<Rightarrow> jsstring option" where
  "dataset_rendered n = getAttribute n (js ''data-rendered'')"

text \<open>\<open>node.querySelector('svg')\<close>: is there a descendant element named \<open>svg\<close>?\<close>

fun has_svg_in :: "node list \<Rightarrow> bool" where
  "has_svg_in [] = False"
| "has_svg_in (TextNode d # ns) = has_svg_in ns"
| "has_svg_in (CommentNode d # ns) = has_svg_in ns"
| "has_svg_in (ElementNode t as cs # ns) = (t = js ''svg'' \<or> has_svg_in cs \<or> has_svg_in ns)"

fun querySelector_svg :: "node \<Rightarrow> bool" where
  "querySelector_svg (ElementNode t as cs) = has_svg_in cs"
| "querySelector_svg n = False"

text \<open>
  What the browser does is not code of this repository: parsing a markup string into
  nodes (\<open>innerHTML = ...\<close>), serialising an element (\<open>outerHTML\<close>) and decoding character
  references (the \<open>textarea\<close> of \<open>_decodeHtml\<close>). The model takes these three as a parameter.
\<close>

record browser =
  parse_fragment :: "jsstring \<Rightarrow> node list"
  outerHTML :: "node \<Rightarrow> jsstring"
  decodeHtml :: "jsstring \<Rightarrow> jsstring"

section \<open>Tree reconciler: \<open>_updateDOM\<close>\<close>

text \<open>
  Each change the reconciler makes to the container is logged with the loop index at which
  it is made: \<open>appendChild\<close>, \<open>oldNode.remove()\<close>, \<open>replaceChild\<close>, and the assignment to
  \<open>oldNode.textContent\<close>.
\<close>

datatype mutation =
    AppendChild nat node
  | RemoveChild nat
  | ReplaceChild nat node
  | SetTextContent nat jsstring

fun mutation_index :: "mutation \<Rightarrow> nat" where
  "mutation_index (AppendChild i n) = i"
| "mutation_index (RemoveChild i) = i"
| "mutation_index (ReplaceChild i n) = i"
| "mutation_index (SetTextContent i v) = i"

text \<open>
  The two releases differ in how an old node counts as materialized: v1.2.0 reads
  \<open>oldNode.dataset.rendered === "true"\<close>, v1.1.0 reads \<open>oldNode.querySelector('svg')\<close>.
\<close>

datatype release = V1_1_0 | V1_2_0

fun materialized :: "release \<Rightarrow> node \<Rightarrow> bool" where
  "materialized V1_2_0 oldNode = (dataset_rendered oldNode = Some (js ''true''))"
| "materialized V1_1_0 oldNode = querySelector_svg oldNode"

text \<open>
  The guard of the preservation rule.
  \<^verbatim>\<open>
  if (newNode.classList.contains('mermaid') && oldNode.classList.contains('mermaid') &&
      oldNode.dataset.rendered === "true") {
      const newHash = newNode.getAttribute('data-code');
      const oldHash = oldNode.getAttribute('data-code');
      if (newHash && newHash === oldHash) { continue; }
  }
  \<close>
\<close>

definition preserved :: "release \<Rightarrow> node \<Rightarrow> node \<Rightarrow> bool" where
  "preserved v newNode oldNode =
     (classList_contains newNode (js ''mermaid'') \<and>
      classList_contains oldNode (js ''mermaid'') \<and>
      materialized v oldNode \<and>
      (let newHash = getAttribute newNode (js ''data-code'');
           oldHash = getAttribute oldNode (js ''data-code'')
       in (case newHash of None \<Rightarrow> False | Some h \<Rightarrow> h \<noteq> [] \<and> newHash = oldHash)))"

text \<open>
  One position at which both an old and a new node exist: the node the container holds
  at that position afterwards, and the mutations made. \<open>cloneNode(true)\<close> is the node itself,
  as a value.
\<close>

definition patch_node :: "browser \<Rightarrow> release \<Rightarrow> nat \<Rightarrow> node \<Rightarrow> node \<Rightarrow> node \<times> mutation list" where
  "patch_node B v i newNode oldNode =
     (if nodeType newNode \<noteq> nodeType oldNode \<or> tagName newNode \<noteq> tagName oldNode
      then (newNode, [ReplaceChild i newNode])
      else if nodeType newNode = TEXT_NODE
      then (if textContent newNode \<noteq> textContent oldNode
            then (set_textContent oldNode (textContent newNode),
                  [SetTextContent i (textContent newNode)])
            else (oldNode, []))
      else if nodeType newNode = ELEMENT_NODE
      then (if preserved v newNode oldNode then (oldNode, [])
            else if outerHTML B newNode \<noteq> outerHTML B oldNode
            then (if className newNode = className oldNode
                  then (newNode, [ReplaceChild i newNode])
                  else (newNode, [ReplaceChild i newNode]))
            else (oldNode, []))
      else (oldNode, []))"

text \<open>
  The loop \<open>for (let i = 0; i < maxLen; i++)\<close> over \<open>newNodes[i]\<close> and \<open>oldNodes[i]\<close>, either of
  which is \<open>undefined\<close> past the end of its array. Appends happen only at indices past the
  old array and removals only at indices past the new one, so an appended node lands at
  index \<open>i\<close> and a removal leaves the earlier positions in place.
\<close>

fun updateDOM_loop :: "browser \<Rightarrow> release \<Rightarrow> nat \<Rightarrow> node list \<Rightarrow> node list \<Rightarrow> node list \<times> mutation list" where
  "updateDOM_loop B v i [] [] = ([], [])"
| "updateDOM_loop B v i (newNode # newNodes) [] =
     (let (rest, ms) = updateDOM_loop B v (Suc i) newNodes []
      in (newNode # rest, AppendChild i newNode # ms))"
| "updateDOM_loop B v i [] (oldNode # oldNodes) =
     (let (rest, ms) = updateDOM_loop B v (Suc i) [] oldNodes
      in (rest, RemoveChild i # ms))"
| "updateDOM_loop B v i (newNode # newNodes) (oldNode # oldNodes) =
     (let (kept, m) = patch_node B v i newNode oldNode;
          (rest, ms) = updateDOM_loop B v (Suc i) newNodes oldNodes
      in (kept # rest, m @ ms))"

text \<open>\<open>_updateDOM(container, newHtmlString)\<close>: the children of the container afterwards, and the log.\<close>

definition updateDOM :: "browser \<Rightarrow> release \<Rightarrow> node list \<Rightarrow> jsstring \<Rightarrow> node list \<times> mutation list" where
  "updateDOM B v container newHtmlString =
     updateDOM_loop B v 0 (parse_fragment B newHtmlString) container"

section \<open>Placeholder codec\<close>

subsection \<open>The strings and characters it works with\<close>

abbreviation NL :: unit16 where "NL \<equiv> 0x0A"
abbreviation DOLLAR :: unit16 where "DOLLAR \<equiv> 0x24"
abbreviation AMPERSAND :: unit16 where "AMPERSAND \<equiv> 0x26"
abbreviation APOSTROPHE :: unit16 where "APOSTROPHE \<equiv> 0x27"
abbreviation BACKSLASH :: unit16 where "BACKSLASH \<equiv> 0x5C"
abbreviation BACKTICK :: unit16 where "BACKTICK \<equiv> 0x60"

definition fence :: jsstring where
  "fence = [BACKTICK, BACKTICK, BACKTICK]"

text \<open>The dot of a regular expression matches every unit but the four line terminators.\<close>

definition is_line_terminator :: "unit16 \<Rightarrow> bool" where
  "is_line_terminator c = (c = 0x0A \<or> c = 0x0D \<or> c = 0x2028 \<or> c = 0x2029)"

definition regex_dot :: "unit16 \<Rightarrow> bool" where
  "regex_dot c = (\<not> is_line_terminator c)"

definition not_newline :: "unit16 \<Rightarrow> bool" where
  "not_newline c = (c \<noteq> NL)"

definition any_unit :: "unit16 \<Rightarrow> bool" where
  "any_unit c = True"

subsection \<open>The tables of one element\<close>

text \<open>
  \<open>this.counter\<close>, \<open>this.codeMap\<close> and \<open>this.mathMap\<close>. A JavaScript \<open>Map\<close> keeps its
  entries in insertion order; \<open>set\<close> on a key already present overwrites its value in place.
\<close>

record codec_state =
  counter :: nat
  codeMap :: "(jsstring \<times> jsstring) list"
  mathMap :: "(jsstring \<times> jsstring \<times> bool) list"

fun map_set :: "'k \<Rightarrow> 'v \<Rightarrow> ('k \<times> 'v) list \<Rightarrow> ('k \<times> 'v) list" where
  "map_set k x [] = [(k, x)]"
| "map_set k x ((k', x') # m) = (if k = k' then (k, x) # m else (k', x') # map_set k x m)"

text \<open>
  The three statements \<open>this.mathMap.clear(); this.codeMap.clear(); this.counter = 0\<close>
  with which \<open>_performRender\<close> opens every pass.
\<close>

definition cleared :: codec_state where
  "cleared = \<lparr>counter = 0, codeMap = [], mathMap = []\<rparr>"

subsection \<open>\<open>String.prototype.replace\<close> with a global regular expression and a callback\<close>

text \<open>
  A matcher stands for one regular expression: told whether the position is index 0 (the
  only place where \<open>^\<close> holds, there being no \<open>m\<close> flag) and given the input from the
  position on (whose end is the only place where \<open>$\<close> holds), it returns the length of the
  match and its captures. The scan copies a unit where nothing matches; at a match it
  calls the callback on the matched text, emits what the callback returns, and resumes
  behind the match (\<open>skip\<close> counts the units of the match still to pass). The callbacks
  run left to right. Every expression of the source consumes at least one unit.
\<close>

type_synonym 'c matcher = "bool \<Rightarrow> jsstring \<Rightarrow> (nat \<times> 'c) option"

fun replace_global ::
  "'c matcher \<Rightarrow> (jsstring \<Rightarrow> 'c \<Rightarrow> 's \<Rightarrow> jsstring \<times> 's) \<Rightarrow> bool \<Rightarrow> nat \<Rightarrow> jsstring \<Rightarrow> 's
     \<Rightarrow> jsstring \<times> 's" where
  "replace_global m f at_start skip [] st = ([], st)"
| "replace_global m f at_start skip (c # cs) st =
     (if 0 < skip then replace_global m f False (skip - 1) cs st
      else (case m at_start (c # cs) of
              None \<Rightarrow>
                (let (out, st') = replace_global m f False 0 cs st in (c # out, st'))
            | Some (len, caps) \<Rightarrow>
                (let (rep, st1) = f (take len (c # cs)) caps st;
                     (out, st2) = replace_global m f False (len - 1) cs st1
                 in (rep @ out, st2))))"

text \<open>
  A lazy quantifier \<open>X*?\<close> followed by the rest of the expression: the least number of
  units, all in the class \<open>X\<close>, after which the rest (\<open>goal\<close>) matches.
\<close>

fun lazy_find :: "(unit16 \<Rightarrow> bool) \<Rightarrow> (jsstring \<Rightarrow> bool) \<Rightarrow> jsstring \<Rightarrow> nat option" where
  "lazy_find cls goal [] = (if goal [] then Some 0 else None)"
| "lazy_find cls goal (c # cs) =
     (if goal (c # cs) then Some 0
      else if cls c then map_option Suc (lazy_find cls goal cs)
      else None)"

subsection \<open>The five expressions\<close>

text \<open>
  \<^verbatim>\<open>/(\n|^)```[\s\S]*?```/g\<close>. \<open>fenced_at r\<close> is the length of \<^verbatim>\<open>```[\s\S]*?```\<close> at the head
  of \<open>r\<close>; the alternative \<open>\n\<close> is tried before \<open>^\<close>.
\<close>

definition fenced_at :: "jsstring \<Rightarrow> nat option" where
  "fenced_at r =
     (if starts_with r fence
      then map_option (\<lambda>j. 3 + j + 3) (lazy_find any_unit (\<lambda>t. starts_with t fence) (drop 3 r))
      else None)"

definition match_code_block :: "unit matcher" where
  "match_code_block at_start s =
     (case (case s of [] \<Rightarrow> None | c # r \<Rightarrow> if c = NL then fenced_at r else None) of
        Some n \<Rightarrow> Some (Suc n, ())
      | None \<Rightarrow> if at_start then map_option (\<lambda>n. (n, ())) (fenced_at s) else None)"

text \<open>
  \<^verbatim>\<open>/(`+)(.*?)\1/g\<close>. The first group is greedy: it takes the whole run of backticks and
  gives them back one at a time while the rest fails. For a group of \<open>k\<close> backticks the lazy
  \<open>.*?\<close> stops at the first later run position, on the same line, where \<open>k\<close> backticks follow.
\<close>

fun ticks_match :: "nat \<Rightarrow> jsstring \<Rightarrow> nat option" where
  "ticks_match 0 s = None"
| "ticks_match (Suc k) s =
     (case lazy_find regex_dot (\<lambda>t. starts_with t (replicate (Suc k) BACKTICK)) (drop (Suc k) s) of
        Some j \<Rightarrow> Some (Suc k + j + Suc k)
      | None \<Rightarrow> ticks_match k s)"

definition match_inline_code :: "unit matcher" where
  "match_inline_code at_start s =
     map_option (\<lambda>n. (n, ())) (ticks_match (length (takeWhile (\<lambda>c. c = BACKTICK) s)) s)"

text \<open>\<^verbatim>\<open>/\\\$/g\<close>: a backslash and a dollar sign.\<close>

definition match_escaped_dollar :: "unit matcher" where
  "match_escaped_dollar at_start s =
     (if starts_with s [BACKSLASH, DOLLAR] then Some (2, ()) else None)"

text \<open>
  \<^verbatim>\<open>/(^|\n)\$\$([\s\S]+?)\$\$($|\n)/g\<close>, with the captures \<open>prefix\<close>, \<open>tex\<close> and \<open>suffix\<close>.
  \<open>math_block_at r\<close> matches from the opening \<open>$$\<close>: the lazy body takes at least one unit
  and stops at the first \<open>$$\<close> that the end of the input or a newline follows (\<open>$\<close> is tried
  before \<open>\n\<close>). The alternative \<open>^\<close> is tried before \<open>\n\<close>.
\<close>

definition block_closes :: "jsstring \<Rightarrow> bool" where
  "block_closes t =
     (starts_with t [DOLLAR, DOLLAR] \<and> (drop 2 t = [] \<or> starts_with (drop 2 t) [NL]))"

definition math_block_at :: "jsstring \<Rightarrow> (nat \<times> jsstring \<times> jsstring) option" where
  "math_block_at r =
     (if starts_with r [DOLLAR, DOLLAR]
      then (case drop 2 r of
              [] \<Rightarrow> None
            | c # t \<Rightarrow>
                (case lazy_find any_unit block_closes t of
                   None \<Rightarrow> None
                 | Some j \<Rightarrow>
                     (let tex = c # take j t;
                          suffix = (if drop (j + 2) t = [] then [] else [NL])
                      in Some (2 + Suc j + 2 + length suffix, tex, suffix))))
      else None)"

definition match_math_block :: "(jsstring \<times> jsstring \<times> jsstring) matcher" where
  "match_math_block at_start s =
     (case (if at_start then math_block_at s else None) of
        Some (n, tex, suffix) \<Rightarrow> Some (n, ([], tex, suffix))
      | None \<Rightarrow>
          (case s of
             [] \<Rightarrow> None
           | c # r \<Rightarrow>
               if c = NL
               then (case math_block_at r of
                       Some (n, tex, suffix) \<Rightarrow> Some (Suc n, ([NL], tex, suffix))
                     | None \<Rightarrow> None)
               else None))"

text \<open>\<^verbatim>\<open>/\$([^\n]+?)\$/g\<close>, with the capture \<open>tex\<close>.\<close>

definition match_inline_math :: "jsstring matcher" where
  "match_inline_math at_start s =
     (case s of
        d # c # t \<Rightarrow>
          if d = DOLLAR \<and> not_newline c
          then (case lazy_find not_newline (\<lambda>u. starts_with u [DOLLAR]) t of
                  None \<Rightarrow> None
                | Some j \<Rightarrow> Some (1 + Suc j + 1, c # take j t))
          else None
      | _ \<Rightarrow> None)"

subsection \<open>The five callbacks\<close>

definition make_key :: "string \<Rightarrow> nat \<Rightarrow> string \<Rightarrow> jsstring" where
  "make_key label n ending = js label @ nat_toString 10 n @ js ending"

definition code_block_cb :: "jsstring \<Rightarrow> unit \<Rightarrow> codec_state \<Rightarrow> jsstring \<times> codec_state" where
  "code_block_cb match caps st =
     (let key = make_key ''CODEBLOCK'' (counter st) ''ENDCODE''
      in (key, st\<lparr>counter := Suc (counter st), codeMap := map_set key match (codeMap st)\<rparr>))"

definition inline_code_cb :: "jsstring \<Rightarrow> unit \<Rightarrow> codec_state \<Rightarrow> jsstring \<times> codec_state" where
  "inline_code_cb match caps st =
     (let key = make_key ''CODEINLINE'' (counter st) ''ENDCODE''
      in (key, st\<lparr>counter := Suc (counter st), codeMap := map_set key match (codeMap st)\<rparr>))"

definition escaped_dollar_cb :: "jsstring \<Rightarrow> unit \<Rightarrow> codec_state \<Rightarrow> jsstring \<times> codec_state" where
  "escaped_dollar_cb match caps st =
     (let key = make_key ''ESCAPEDDOLLAR'' (counter st) ''END''
      in (key, st\<lparr>counter := Suc (counter st), codeMap := map_set key match (codeMap st)\<rparr>))"

definition math_block_cb ::
  "jsstring \<Rightarrow> jsstring \<times> jsstring \<times> jsstring \<Rightarrow> codec_state \<Rightarrow> jsstring \<times> codec_state" where
  "math_block_cb match caps st =
     (case caps of (prefix, tex, suffix) \<Rightarrow>
        (let key = make_key ''MATHBLOCK'' (counter st) ''ENDMATH''
         in (prefix @ key @ suffix,
             st\<lparr>counter := Suc (counter st), mathMap := map_set key (tex, True) (mathMap st)\<rparr>)))"

text \<open>
  \<^verbatim>\<open>
  (match, tex) => {
      if (/[\u4e00-\u9fa5]/.test(tex) && !tex.includes('\\text')) return match;
      const key = `MATHINLINE${this.counter++}ENDMATH`;
      this.mathMap.set(key, { tex: tex, display: false });
      return key;
  }
  \<close>
\<close>

definition in_cjk_range :: "unit16 \<Rightarrow> bool" where
  "in_cjk_range c = (0x4E00 \<le> c \<and> c \<le> 0x9FA5)"

definition text_marker :: jsstring where
  "text_marker = BACKSLASH # js ''text''"

definition inline_math_cb :: "jsstring \<Rightarrow> jsstring \<Rightarrow> codec_state \<Rightarrow> jsstring \<times> codec_state" where
  "inline_math_cb match tex st =
     (if list_ex in_cjk_range tex \<and> \<not> str_includes tex text_marker then (match, st)
      else (let key = make_key ''MATHINLINE'' (counter st) ''ENDMATH''
            in (key, st\<lparr>counter := Suc (counter st),
                        mathMap := map_set key (tex, False) (mathMap st)\<rparr>)))"

subsection \<open>\<open>String.prototype.replace\<close> with a string pattern and a string replacement\<close>

text \<open>
  \<open>processed.replace(key, value)\<close> replaces the first occurrence of \<open>key\<close> only, and reads
  \<open>value\<close> as a replacement pattern: \<open>$$\<close> is a dollar sign, \<open>$&\<close> the matched text, \<open>$`\<close>
  the text before the match and \<open>$'\<close> the text after it. A string pattern has no capture
  groups, so every other use of \<open>$\<close> stands for itself.
\<close>

fun expand_replacement :: "jsstring \<Rightarrow> jsstring \<Rightarrow> jsstring \<Rightarrow> jsstring \<Rightarrow> jsstring" where
  "expand_replacement matched preceding following [] = []"
| "expand_replacement matched preceding following [c] = [c]"
| "expand_replacement matched preceding following (c # d # r) =
     (if c = DOLLAR \<and> d = DOLLAR then DOLLAR # expand_replacement matched preceding following r
      else if c = DOLLAR \<and> d = AMPERSAND then matched @ expand_replacement matched preceding following r
      else if c = DOLLAR \<and> d = BACKTICK then preceding @ expand_replacement matched preceding following r
      else if c = DOLLAR \<and> d = APOSTROPHE then following @ expand_replacement matched preceding following r
      else c # expand_replacement matched preceding following (d # r))"

fun split_at_first :: "jsstring \<Rightarrow> jsstring \<Rightarrow> jsstring \<Rightarrow> (jsstring \<times> jsstring) option" where
  "split_at_first key seen [] = (if key = [] then Some (seen, []) else None)"
| "split_at_first key seen (c # cs) =
     (if starts_with (c # cs) key then Some (seen, drop (length key) (c # cs))
      else split_at_first key (seen @ [c]) cs)"

definition string_replace :: "jsstring \<Rightarrow> jsstring \<Rightarrow> jsstring \<Rightarrow> jsstring" where
  "string_replace key val s =
     (case split_at_first key [] s of
        None \<Rightarrow> s
      | Some (preceding, following) \<Rightarrow> preceding @ expand_replacement key preceding following val @ following)"

subsection \<open>\<open>_protectCodeAndMath\<close>\<close>

text \<open>
  \<open>if (!text) return ''\<close>, then the five replacements in order, each on the output of the one
  before, then \<open>this.codeMap.forEach((value, key) => processed = processed.replace(key, value))\<close>.
\<close>

definition protect_stages :: "jsstring \<Rightarrow> codec_state \<Rightarrow> jsstring \<times> codec_state" where
  "protect_stages text st =
     (let (p1, st1) = replace_global match_code_block code_block_cb True 0 text st;
          (p2, st2) = replace_global match_inline_code inline_code_cb True 0 p1 st1;
          (p3, st3) = replace_global match_escaped_dollar escaped_dollar_cb True 0 p2 st2;
          (p4, st4) = replace_global match_math_block math_block_cb True 0 p3 st3
      in replace_global match_inline_math inline_math_cb True 0 p4 st4)"

definition restore_code :: "(jsstring \<times> jsstring) list \<Rightarrow> jsstring \<Rightarrow> jsstring" where
  "restore_code m processed = fold (\<lambda>(key, val) p. string_replace key val p) m processed"

definition protectCodeAndMath :: "jsstring \<Rightarrow> codec_state \<Rightarrow> jsstring \<times> codec_state" where
  "protectCodeAndMath text st =
     (if text = [] then ([], st)
      else (let (processed, st') = protect_stages text st
            in (restore_code (codeMap st') processed, st')))"

subsection \<open>\<open>_restoreAndRenderMath\<close>\<close>

text \<open>
  \<open>result.split(key).join(rendered)\<close> replaces every occurrence of \<open>key\<close>, left to right, by
  \<open>rendered\<close> as it is. The typesetting engine is not code of this repository: it is a
  parameter that returns the markup or raises.
\<close>

fun split_join :: "jsstring \<Rightarrow> jsstring \<Rightarrow> nat \<Rightarrow> jsstring \<Rightarrow> jsstring" where
  "split_join key rendered skip [] = []"
| "split_join key rendered skip (c # cs) =
     (if 0 < skip then split_join key rendered (skip - 1) cs
      else if starts_with (c # cs) key then rendered @ split_join key rendered (length key - 1) cs
      else c # split_join key rendered 0 cs)"

type_synonym 'e katex = "jsstring \<Rightarrow> bool \<Rightarrow> 'e + jsstring"

definition restore_one :: "'e katex \<Rightarrow> jsstring \<times> jsstring \<times> bool \<Rightarrow> jsstring \<Rightarrow> jsstring" where
  "restore_one renderToString entry result =
     (case entry of (key, tex, display) \<Rightarrow>
        (case renderToString tex display of
           Inr rendered \<Rightarrow> split_join key rendered 0 result
         | Inl e \<Rightarrow> split_join key tex 0 result))"

definition restoreAndRenderMath :: "'e katex \<Rightarrow> codec_state \<Rightarrow> jsstring \<Rightarrow> jsstring" where
  "restoreAndRenderMath renderToString st html = fold (restore_one renderToString) (mathMap st) html"

section \<open>JavaScript values\<close>

text \<open>
  \<open>render(markdownText)\<close> and the setter \<open>value\<close> take whatever value the host passes, and
  a \<open>catch\<close> clause receives whatever value was thrown. A number is its IEEE 754 double,
  given by its 64 bits. A symbol and an object are known by their identity only. An
  object stands for a plain one, such as \<^verbatim>\<open>{}\<close>: it has none of the properties that the
  element reads from a value (\<open>replace\<close>, \<open>lastIndexOf\<close>, \<open>message\<close>). An object that has a
  property under one of these names, its own or inherited (an array, a \<open>String\<close> object),
  runs other code in its place and is not among these values; an error object with its
  message is a thrown value below.
\<close>

datatype jsvalue =
    JSUndefined
  | JSNull
  | JSBoolean bool
  | JSNumber "64 word"
  | JSBigInt int
  | JSString jsstring
  | JSSymbol nat
  | JSObject nat

text \<open>
  \<open>ToBoolean\<close>, which \<open>!x\<close>, \<open>x || y\<close> and \<open>if (x)\<close> apply: the falsy values are \<open>undefined\<close>,
  \<open>null\<close>, \<open>false\<close>, \<open>+0\<close>, \<open>-0\<close>, \<open>NaN\<close>, \<open>0n\<close> and the empty string. A double is a zero when
  all its bits but the sign are 0, and a \<open>NaN\<close> when its eleven exponent bits are 1 and its
  fraction is not 0.
\<close>

definition double_is_zero :: "64 word \<Rightarrow> bool" where
  "double_is_zero d = (d AND 0x7FFFFFFFFFFFFFFF = 0)"

definition double_is_nan :: "64 word \<Rightarrow> bool" where
  "double_is_nan d =
     (d AND 0x7FF0000000000000 = 0x7FF0000000000000 \<and> d AND 0x000FFFFFFFFFFFFF \<noteq> 0)"

fun ToBoolean :: "jsvalue \<Rightarrow> bool" where
  "ToBoolean JSUndefined = False"
| "ToBoolean JSNull = False"
| "ToBoolean (JSBoolean b) = b"
| "ToBoolean (JSNumber d) = (\<not> double_is_zero d \<and> \<not> double_is_nan d)"
| "ToBoolean (JSBigInt i) = (i \<noteq> 0)"
| "ToBoolean (JSString s) = (s \<noteq> [])"
| "ToBoolean (JSSymbol n) = True"
| "ToBoolean (JSObject n) = True"

text \<open>\<open>typeof x === 'string'\<close>\<close>

fun is_string :: "jsvalue \<Rightarrow> bool" where
  "is_string (JSString s) = True"
| "is_string x = False"

section \<open>Thrown values\<close>

text \<open>
  What a \<open>catch\<close> clause receives: an error object with its message (an \<open>Error\<close>, or a
  \<open>TypeError\<close> that the language itself raises), or any other value, which has no
  \<open>message\<close> that is a string. The messages of the \<open>TypeError\<close>s raised below are in the
  wording of V8; the element does nothing with them but hand them to the console.
\<close>

datatype js_error =
    Error jsstring
  | TypeError jsstring
  | Thrown jsvalue

text \<open>\<open>err.message\<close>, when it is a string.\<close>

fun error_message :: "js_error \<Rightarrow> jsstring option" where
  "error_message (Error message) = Some message"
| "error_message (TypeError message) = Some message"
| "error_message (Thrown x) = None"

section \<open>\<open>_protectCodeAndMath\<close> on a value that need not be a string\<close>

text \<open>
  \<^verbatim>\<open>
  _protectCodeAndMath(text) {
      if (!text) return '';
      let processed = text;
      processed = processed.replace(/(\n|^)```[\s\S]*?```/g, (match) => { ... });
  \<close>
  \<open>text\<close> is \<open>this._latestMarkdown\<close>, or what the host's \<open>beforeParse\<close> made of it. On a string
  the function is \<open>protectCodeAndMath\<close> above. Any other value is returned as \<open>''\<close> when it
  is falsy; when it is truthy, the first \<open>processed.replace\<close> raises a \<open>TypeError\<close>, since the
  value has no method \<open>replace\<close>, before any table is written.
\<close>

definition protectCodeAndMath_value ::
  "jsvalue \<Rightarrow> codec_state \<Rightarrow> js_error + jsstring \<times> codec_state" where
  "protectCodeAndMath_value text st =
     (case text of
        JSString s \<Rightarrow> Inr (protectCodeAndMath s st)
      | _ \<Rightarrow> if \<not> ToBoolean text then Inr ([], st)
             else Inl (TypeError (js ''processed.replace is not a function'')))"

section \<open>Fence completeness detector: \<open>_checkMermaidIntegrity\<close>\<close>

text \<open>\<open>s.lastIndexOf(p)\<close>: the greatest index at which \<open>p\<close> occurs in \<open>s\<close>, \<open>None\<close> for \<open>-1\<close>.\<close>

fun last_index_from :: "nat \<Rightarrow> jsstring \<Rightarrow> jsstring \<Rightarrow> nat option \<Rightarrow> nat option" where
  "last_index_from i [] p best = (if p = [] then Some i else best)"
| "last_index_from i (c # cs) p best =
     last_index_from (Suc i) cs p (if starts_with (c # cs) p then Some i else best)"

definition lastIndexOf :: "jsstring \<Rightarrow> jsstring \<Rightarrow> nat option" where
  "lastIndexOf s p = last_index_from 0 s p None"

text \<open>\<^verbatim>\<open>/^\s*```/.test(stringAfter)\<close>\<close>

definition closing_fence_follows :: "jsstring \<Rightarrow> bool" where
  "closing_fence_follows stringAfter = starts_with (dropWhile is_js_space stringAfter) fence"

text \<open>
  The search suffix is \<open>trimmedSnippet.slice(-Math.min(trimmedSnippet.length, 50))\<close> in
  v1.2.0 and \<open>trimmedSnippet.slice(-20)\<close> in v1.1.0: the last 50 (20) units, or the whole
  snippet when it is shorter.
\<close>

fun search_cap :: "release \<Rightarrow> nat" where
  "search_cap V1_2_0 = 50"
| "search_cap V1_1_0 = 20"

definition search_part :: "release \<Rightarrow> jsstring \<Rightarrow> jsstring" where
  "search_part v codeSnippet =
     (let trimmedSnippet = trim codeSnippet
      in drop (length trimmedSnippet - min (length trimmedSnippet) (search_cap v)) trimmedSnippet)"

text \<open>
  \<^verbatim>\<open>
  _checkMermaidIntegrity(codeSnippet) {
      if (!this._latestMarkdown) return false;
      const trimmedSnippet = codeSnippet.trim();
      if (trimmedSnippet.length === 0) return false;
      const searchPart = trimmedSnippet.slice(-Math.min(trimmedSnippet.length, 50));
      const index = this._latestMarkdown.lastIndexOf(searchPart);
      if (index === -1) return false;
      const stringAfter = this._latestMarkdown.slice(index + searchPart.length);
      return /^\s*```/.test(stringAfter);
  }
  \<close>
\<close>

definition checkMermaidIntegrity :: "release \<Rightarrow> jsstring \<Rightarrow> jsstring \<Rightarrow> bool" where
  "checkMermaidIntegrity v latestMarkdown codeSnippet =
     (if latestMarkdown = [] then False
      else if length (trim codeSnippet) = 0 then False
      else (let searchPart = search_part v codeSnippet
            in (case lastIndexOf latestMarkdown searchPart of
                  None \<Rightarrow> False
                | Some index \<Rightarrow>
                    (let stringAfter = drop (index + length searchPart) latestMarkdown
                     in closing_fence_follows stringAfter))))"

section \<open>The fence callback given to the parser\<close>

text \<open>\<open>_escapeHtml\<close>: the five characters \<open>& < > " '\<close> become character references.\<close>

definition escape_unit :: "unit16 \<Rightarrow> jsstring" where
  "escape_unit c =
     (if c = AMPERSAND then js ''&amp;''
      else if c = 0x3C then js ''&lt;''
      else if c = 0x3E then js ''&gt;''
      else if c = 0x22 then js ''&quot;''
      else if c = APOSTROPHE then js ''&#039;''
      else [c])"

definition escapeHtml :: "jsstring \<Rightarrow> jsstring" where
  "escapeHtml text = concat (map escape_unit text)"

text \<open>The syntax highlighter is not code of this repository.\<close>

record highlighter =
  getLanguage :: "jsstring \<Rightarrow> bool"
  highlight :: "jsstring \<Rightarrow> jsstring \<Rightarrow> js_error + jsstring"

text \<open>
  \<open>renderer.code(code, lang)\<close>; \<open>lang\<close> is \<open>undefined\<close> (\<open>None\<close>) on a fence without a
  language tag. In v1.2.0 the diagram source is decoded first and escaped in both
  outcomes; v1.1.0 takes the source as the parser hands it over and writes it unescaped
  into a closed diagram node and into a plain code block.
\<close>

definition streaming_markup :: "jsstring \<Rightarrow> jsstring" where
  "streaming_markup source = js ''<div class=\"mermaid-streaming\">'' @ escapeHtml source @ js ''</div>''"

definition renderer_code ::
  "browser \<Rightarrow> highlighter \<Rightarrow> release \<Rightarrow> jsstring \<Rightarrow> jsstring \<Rightarrow> jsstring option \<Rightarrow> jsstring" where
  "renderer_code B H v latestMarkdown code lang0 =
     (let lang = (case lang0 of None \<Rightarrow> [] | Some l \<Rightarrow> l)
      in if lang = js ''mermaid''
         then (let cleanCode = (if v = V1_2_0 then decodeHtml B code else code);
                   isClosed = checkMermaidIntegrity v latestMarkdown cleanCode
               in if \<not> isClosed then streaming_markup cleanCode
                  else js ''<div class=\"mermaid\" data-code=\"'' @ hashCode cleanCode @ js ''\">''
                       @ (if v = V1_2_0 then escapeHtml cleanCode else code) @ js ''</div>'')
         else (case (if lang \<noteq> [] \<and> getLanguage H lang
                     then (case highlight H code lang of Inr highlighted \<Rightarrow> Some highlighted
                           | Inl e \<Rightarrow> None)
                     else None) of
                 Some highlighted \<Rightarrow>
                   js ''<pre><code class=\"hljs language-'' @ lang @ js ''\">'' @ highlighted
                   @ js ''</code></pre>''
               | None \<Rightarrow>
                   js ''<pre><code class=\"hljs\">'' @ (if v = V1_2_0 then escapeHtml code else code)
                   @ js ''</code></pre>''))"

section \<open>The detector and the fence callback on a stored source that need not be a string\<close>

text \<open>
  \<open>this._latestMarkdown\<close> is what \<open>render\<close> stored. \<open>_checkMermaidIntegrity\<close> reads it in
  its first line, \<open>if (!this._latestMarkdown) return false\<close>, and in
  \<open>this._latestMarkdown.lastIndexOf(searchPart)\<close>, which comes after the test of the trimmed
  snippet. On a string the function is \<open>checkMermaidIntegrity\<close> above. On any other value
  it returns \<open>false\<close> when the value is falsy or the trimmed snippet is empty, and else
  raises a \<open>TypeError\<close>, since the value has no method \<open>lastIndexOf\<close>.
\<close>

definition checkMermaidIntegrity_value :: "release \<Rightarrow> jsvalue \<Rightarrow> jsstring \<Rightarrow> js_error + bool" where
  "checkMermaidIntegrity_value v stored codeSnippet =
     (case stored of
        JSString latestMarkdown \<Rightarrow> Inr (checkMermaidIntegrity v latestMarkdown codeSnippet)
      | _ \<Rightarrow> if \<not> ToBoolean stored then Inr False
             else if length (trim codeSnippet) = 0 then Inr False
             else Inl (TypeError (js ''this._latestMarkdown.lastIndexOf is not a function'')))"

text \<open>
  The fence callback calls the detector on a diagram fence only, and nothing else in it
  reads the stored source. So for a stored string it is \<open>renderer_code\<close> above; for any
  other value it raises what the detector raises, and where the detector returns (always
  \<open>false\<close> then, as it does on the empty string) it returns what \<open>renderer_code\<close> returns
  for the empty string.
\<close>

definition renderer_code_value ::
  "browser \<Rightarrow> highlighter \<Rightarrow> release \<Rightarrow> jsvalue \<Rightarrow> jsstring \<Rightarrow> jsstring option
     \<Rightarrow> js_error + jsstring" where
  "renderer_code_value B H v stored code lang0 =
     (case stored of
        JSString latestMarkdown \<Rightarrow> Inr (renderer_code B H v latestMarkdown code lang0)
      | _ \<Rightarrow>
          (let lang = (case lang0 of None \<Rightarrow> [] | Some l \<Rightarrow> l)
           in if lang = js ''mermaid''
              then (let cleanCode = (if v = V1_2_0 then decodeHtml B code else code)
                    in (case checkMermaidIntegrity_value v stored cleanCode of
                          Inl err \<Rightarrow> Inl err
                        | Inr isClosed \<Rightarrow> Inr (renderer_code B H v [] code lang0)))
              else Inr (renderer_code B H v [] code lang0)))"

section \<open>The element: state, passes and timers\<close>

text \<open>
  The collaborators of a pass are not code of this repository: the host's hooks, the
  parser (which calls the fence callback it is given), the sanitizer, the typesetting
  engine, the highlighter and the diagram engine. Each returns a value or raises.
  \<open>beforeParse\<close> is handed the stored source, whatever value that is, and what it returns
  is encoded, whatever value that is. The fence callback can raise, and it is the
  parser's to say what becomes of that. What \<open>afterSanitize\<close> returns is written into the
  page, and is taken to be the string that its documentation asks for.
  The diagram engine is asked with the number of the call (it is handed a fresh random
  identifier each time, and need not answer the same source the same way twice); it
  resolves with a graphic or rejects with any value.
\<close>

record collaborators =
  beforeParse :: "(jsvalue \<Rightarrow> js_error + jsvalue) option"
  marked_parse :: "(jsstring \<Rightarrow> jsstring option \<Rightarrow> js_error + jsstring) \<Rightarrow> jsstring \<Rightarrow> js_error + jsstring"
  sanitize :: "jsstring \<Rightarrow> js_error + jsstring"
  afterSanitize :: "(jsstring \<Rightarrow> js_error + jsstring) option"
  renderToString :: "js_error katex"
  onRendered :: "(node list \<Rightarrow> js_error + node list) option"
  hljs :: highlighter
  mermaid_render :: "nat \<Rightarrow> jsstring \<Rightarrow> js_error + jsstring"

text \<open>
  The fields of the element that the operations below read or write; \<open>container\<close> holds
  the child nodes of the live container. The two console fields collect what goes to
  \<open>console.error\<close> and \<open>console.warn\<close>, \<open>engine_calls\<close> the sources handed to the diagram engine,
  and \<open>unhandled\<close> the exceptions that leave a timer callback (its promise is rejected,
  and nothing awaits it).
\<close>

record akari =
  latestMarkdown :: jsvalue
  container :: "node list"
  tables :: codec_state
  renderTimer :: bool
  mermaidTimer :: bool
  isRendering :: bool
  isMermaidWorking :: bool
  console_error :: "js_error list"
  console_warn :: "js_error list"
  engine_calls :: "jsstring list"
  unhandled :: "js_error list"

text \<open>The state the constructor leaves.\<close>

definition constructed :: akari where
  "constructed =
     \<lparr>latestMarkdown = JSString [], container = [], tables = cleared, renderTimer = False,
      mermaidTimer = False, isRendering = False, isMermaidWorking = False,
      console_error = [], console_warn = [], engine_calls = [], unhandled = []\<rparr>"

definition clearTimers :: "akari \<Rightarrow> akari" where
  "clearTimers st = st\<lparr>renderTimer := False, mermaidTimer := False\<rparr>"

text \<open>\<open>_scheduleMermaidRender\<close> cancels a pending timer and sets a new one.\<close>

definition scheduleMermaidRender :: "akari \<Rightarrow> akari" where
  "scheduleMermaidRender st = st\<lparr>mermaidTimer := True\<rparr>"

definition caught :: "js_error \<Rightarrow> akari \<Rightarrow> akari" where
  "caught err st = st\<lparr>console_error := console_error st @ [err]\<rparr>"

definition run_hook :: "('a \<Rightarrow> js_error + 'a) option \<Rightarrow> 'a \<Rightarrow> js_error + 'a" where
  "run_hook hook x = (case hook of None \<Rightarrow> Inr x | Some h \<Rightarrow> h x)"

text \<open>
  \<open>_performRender(forceFullRender)\<close>. The function is declared \<open>async\<close> but awaits nothing,
  so it runs to its end when called. Everything from the first hook on is inside one
  \<open>try\<close>, whose \<open>catch\<close> writes the exception to \<open>console.error\<close>. The tables are cleared
  after the first hook and before the encoder runs.
\<close>

definition performRender :: "collaborators \<Rightarrow> browser \<Rightarrow> release \<Rightarrow> bool \<Rightarrow> akari \<Rightarrow> akari" where
  "performRender C B v forceFullRender st =
     (case run_hook (beforeParse C) (latestMarkdown st) of
        Inl err \<Rightarrow> caught err st
      | Inr text \<Rightarrow>
          (case protectCodeAndMath_value text cleared of
             Inl err \<Rightarrow> caught err (st\<lparr>tables := cleared\<rparr>)
           | Inr (processed, tb) \<Rightarrow>
               (let st1 = st\<lparr>tables := tb\<rparr>
                in (case marked_parse C (renderer_code_value B (hljs C) v (latestMarkdown st))
                           processed of
                      Inl err \<Rightarrow> caught err st1
                    | Inr parsed \<Rightarrow>
                        (case sanitize C parsed of
                           Inl err \<Rightarrow> caught err st1
                         | Inr clean \<Rightarrow>
                             (case run_hook (afterSanitize C) clean of
                                Inl err \<Rightarrow> caught err st1
                              | Inr hooked \<Rightarrow>
                                  (let html = restoreAndRenderMath (renderToString C) tb hooked;
                                       st2 = st1\<lparr>container :=
                                               (if forceFullRender then parse_fragment B html
                                                else fst (updateDOM B v (container st1) html))\<rparr>;
                                       st3 = scheduleMermaidRender st2
                                   in (case run_hook (onRendered C) (container st3) of
                                         Inl err \<Rightarrow> caught err st3
                                       | Inr c \<Rightarrow> st3\<lparr>container := c\<rparr>))))))))"

text \<open>
  \<open>render(markdownText, force)\<close>. The documented argument is a string, but the function
  takes any value, and \<open>markdownText || ''\<close> is the argument itself when it is truthy and
  the empty string when it is falsy.
\<close>

definition or_empty :: "jsvalue \<Rightarrow> jsvalue" where
  "or_empty markdownText = (if ToBoolean markdownText then markdownText else JSString [])"

definition render :: "collaborators \<Rightarrow> browser \<Rightarrow> release \<Rightarrow> jsvalue \<Rightarrow> bool \<Rightarrow> akari \<Rightarrow> akari" where
  "render C B v markdownText force st =
     (let st1 = st\<lparr>latestMarkdown := or_empty markdownText\<rparr>
      in if force then performRender C B v True (clearTimers st1)
         else if isRendering st1 then st1
         else if \<not> renderTimer st1 then st1\<lparr>renderTimer := True\<rparr>
         else st1)"

text \<open>The callback of the render timer.\<close>

definition render_timer_fires :: "collaborators \<Rightarrow> browser \<Rightarrow> release \<Rightarrow> akari \<Rightarrow> akari" where
  "render_timer_fires C B v st =
     (let st1 = performRender C B v False (st\<lparr>isRendering := True\<rparr>)
      in st1\<lparr>isRendering := False, renderTimer := False\<rparr>)"

text \<open>\<open>get value()\<close> and \<open>set value(val)\<close>.\<close>

definition get_value :: "akari \<Rightarrow> jsvalue" where
  "get_value st = latestMarkdown st"

definition set_value :: "collaborators \<Rightarrow> browser \<Rightarrow> release \<Rightarrow> jsvalue \<Rightarrow> akari \<Rightarrow> akari" where
  "set_value C B v val st = render C B v val False st"

section \<open>Sub-render pipeline: the callback of the diagram timer\<close>

text \<open>
  \<open>classList.add\<close> and \<open>classList.remove\<close> change the ordered set of tokens and write it
  back to the \<open>class\<close> attribute, joined by single spaces; nothing is written when the
  attribute is absent and the set is empty.
\<close>

fun ordered_set :: "jsstring list \<Rightarrow> jsstring list" where
  "ordered_set [] = []"
| "ordered_set (t # ts) = t # filter (\<lambda>u. u \<noteq> t) (ordered_set ts)"

fun join_tokens :: "jsstring list \<Rightarrow> jsstring" where
  "join_tokens [] = []"
| "join_tokens [t] = t"
| "join_tokens (t # u # ts) = t @ js '' '' @ join_tokens (u # ts)"

definition write_tokens :: "jsstring list \<Rightarrow> (jsstring \<times> jsstring) list \<Rightarrow> (jsstring \<times> jsstring) list" where
  "write_tokens toks as =
     (if map_of as (js ''class'') = None \<and> toks = [] then as
      else map_set (js ''class'') (join_tokens toks) as)"

definition attr_tokens :: "(jsstring \<times> jsstring) list \<Rightarrow> jsstring list" where
  "attr_tokens as =
     ordered_set (class_tokens [] (case map_of as (js ''class'') of None \<Rightarrow> [] | Some x \<Rightarrow> x))"

definition classList_add :: "jsstring \<Rightarrow> (jsstring \<times> jsstring) list \<Rightarrow> (jsstring \<times> jsstring) list" where
  "classList_add tok as =
     write_tokens (if tok \<in> set (attr_tokens as) then attr_tokens as else attr_tokens as @ [tok]) as"

definition classList_remove :: "jsstring \<Rightarrow> (jsstring \<times> jsstring) list \<Rightarrow> (jsstring \<times> jsstring) list" where
  "classList_remove tok as = write_tokens (filter (\<lambda>u. u \<noteq> tok) (attr_tokens as)) as"

text \<open>The markup written into a node whose diagram the engine rejected.\<close>

definition error_markup :: "release \<Rightarrow> jsstring \<Rightarrow> jsstring \<Rightarrow> jsstring" where
  "error_markup v message code =
     (if v = V1_2_0
      then [NL] @ replicate 24 0x20 @ js ''<div class=\"mermaid-error-msg\">'' @ [0x26A0, 0xFE0F]
           @ js '' Mermaid Error:'' @ [NL] @ escapeHtml message @ js ''</div>'' @ [NL]
           @ replicate 24 0x20 @ js ''<div class=\"mermaid-source\">'' @ escapeHtml code @ js ''</div>''
           @ [NL] @ replicate 20 0x20
      else js ''<div class=\"mermaid-source\">'' @ escapeHtml code @ js ''</div>'')"

text \<open>
  What the loop body reads from a node: the source (\<open>_decodeHtml(node.textContent)\<close> in
  v1.2.0, \<open>node.textContent\<close> in v1.1.0) and the two tests that skip the node
  (\<open>node.querySelector('svg')\<close>; \<open>!code.trim()\<close> in v1.2.0, \<open>!code\<close> in v1.1.0).
\<close>

definition node_code :: "browser \<Rightarrow> release \<Rightarrow> node \<Rightarrow> jsstring" where
  "node_code B v n = (if v = V1_2_0 then decodeHtml B (textContent n) else textContent n)"

definition is_pending :: "browser \<Rightarrow> release \<Rightarrow> node \<Rightarrow> bool" where
  "is_pending B v n =
     (\<not> querySelector_svg n \<and>
      (if v = V1_2_0 then trim (node_code B v n) \<noteq> [] else node_code B v n \<noteq> []))"

text \<open>
  What one firing has done so far: the sources it has handed to the engine, the warnings
  it has written, and the exception, if any, that has left its loop.
\<close>

record firing =
  calls :: "jsstring list"
  warnings :: "js_error list"
  uncaught :: "js_error option"

text \<open>
  The body of the loop from the \<open>try\<close> on, for an element with tag \<open>t\<close>, attributes \<open>as\<close> and
  children \<open>cs\<close>. The engine is called. When it resolves, the node gets the graphic as its
  content and \<open>data-rendered="true"\<close> (and loses the class \<open>mermaid-error\<close> in v1.2.0). When it
  rejects:
  \<^verbatim>\<open>
  } catch (err) {                                                   // v1.2.0
      console.warn('[AkariMarkdown] Mermaid Error:', err);
      node.innerHTML = `
          <div class="mermaid-error-msg">... Mermaid Error:\n${this._escapeHtml(err.message)}</div>
          <div class="mermaid-source">${this._escapeHtml(code)}</div>
      `;
      node.classList.add('mermaid-error');
  \<close>
  \<^verbatim>\<open>
  } catch (err) {                                                   // v1.1.0
      node.innerHTML = `<div class="mermaid-source">${this._escapeHtml(code)}</div>`;
      node.classList.add('mermaid-error');
  \<close>
  In v1.2.0 the template is evaluated before anything is assigned, and \<open>_escapeHtml\<close> calls
  \<open>text.replace\<close> on its argument: when the rejection has no \<open>message\<close> that is a string, a
  \<open>TypeError\<close> is raised inside the \<open>catch\<close> (by \<open>err.message\<close> itself when \<open>err\<close> is \<open>undefined\<close>
  or \<open>null\<close>), after the warning and before the node is touched, and nothing catches it.
  The removal of a stray element of the engine concerns the document outside the
  container and is left out.
\<close>

definition rejection_type_error :: "js_error \<Rightarrow> js_error" where
  "rejection_type_error err =
     (if err = Thrown JSUndefined
      then TypeError (js ''Cannot read properties of undefined (reading 'message')'')
      else if err = Thrown JSNull
      then TypeError (js ''Cannot read properties of null (reading 'message')'')
      else TypeError (js ''Cannot read properties of undefined (reading 'replace')''))"

definition materialize ::
  "collaborators \<Rightarrow> browser \<Rightarrow> release \<Rightarrow> jsstring \<Rightarrow> (jsstring \<times> jsstring) list \<Rightarrow> node list
     \<Rightarrow> jsstring \<Rightarrow> firing \<Rightarrow> node \<times> firing" where
  "materialize C B v t as cs code log =
     (case mermaid_render C (length (calls log)) code of
        Inr svg \<Rightarrow>
          (ElementNode t
             (let as1 = map_set (js ''data-rendered'') (js ''true'') as
              in if v = V1_2_0 then classList_remove (js ''mermaid-error'') as1 else as1)
             (parse_fragment B svg),
           log\<lparr>calls := calls log @ [code]\<rparr>)
      | Inl err \<Rightarrow>
          (if v = V1_2_0
           then (case error_message err of
                   Some message \<Rightarrow>
                     (ElementNode t (classList_add (js ''mermaid-error'') as)
                        (parse_fragment B (error_markup v message code)),
                      log\<lparr>calls := calls log @ [code], warnings := warnings log @ [err]\<rparr>)
                 | None \<Rightarrow>
                     (ElementNode t as cs,
                      log\<lparr>calls := calls log @ [code], warnings := warnings log @ [err],
                          uncaught := Some (rejection_type_error err)\<rparr>))
           else (ElementNode t (classList_add (js ''mermaid-error'') as)
                   (parse_fragment B (error_markup v [] code)),
                 log\<lparr>calls := calls log @ [code]\<rparr>)))"

text \<open>
  \<open>for (const node of this.container.querySelectorAll('.mermaid'))\<close>. The node list is
  taken once, in document order: an element comes before its descendants. The walk below
  visits the tree in that order. When the body has replaced the content of a node, the
  descendants it had are detached, but those of class \<open>mermaid\<close> are still in the list:
  the loop reaches them, calls the engine for them, and what it writes into them is not
  part of the container. A node that is skipped keeps its children, which are visited
  in place. Once an exception has left the loop, no further node is visited.
\<close>

fun fire_node :: "collaborators \<Rightarrow> browser \<Rightarrow> release \<Rightarrow> node \<Rightarrow> firing \<Rightarrow> node \<times> firing"
  and fire_nodes :: "collaborators \<Rightarrow> browser \<Rightarrow> release \<Rightarrow> node list \<Rightarrow> firing \<Rightarrow> node list \<times> firing" where
  "fire_node C B v (TextNode d) log = (TextNode d, log)"
| "fire_node C B v (CommentNode d) log = (CommentNode d, log)"
| "fire_node C B v (ElementNode t as cs) log =
     (if uncaught log \<noteq> None then (ElementNode t as cs, log)
      else if classList_contains (ElementNode t as cs) (js ''mermaid'')
         \<and> is_pending B v (ElementNode t as cs)
      then (let (n', log1) = materialize C B v t as cs (node_code B v (ElementNode t as cs)) log
            in (n', snd (fire_nodes C B v cs log1)))
      else (let (cs', log1) = fire_nodes C B v cs log in (ElementNode t as cs', log1)))"
| "fire_nodes C B v [] log = ([], log)"
| "fire_nodes C B v (n # ns) log =
     (let (n', log1) = fire_node C B v n log;
          (ns', log2) = fire_nodes C B v ns log1
      in (n' # ns', log2))"

text \<open>\<open>querySelectorAll('.mermaid')\<close>: the elements of class \<open>mermaid\<close>, in document order.\<close>

fun querySelectorAll_mermaid :: "node list \<Rightarrow> node list" where
  "querySelectorAll_mermaid [] = []"
| "querySelectorAll_mermaid (TextNode d # ns) = querySelectorAll_mermaid ns"
| "querySelectorAll_mermaid (CommentNode d # ns) = querySelectorAll_mermaid ns"
| "querySelectorAll_mermaid (ElementNode t as cs # ns) =
     (if classList_contains (ElementNode t as cs) (js ''mermaid'') then [ElementNode t as cs] else [])
     @ querySelectorAll_mermaid cs @ querySelectorAll_mermaid ns"

text \<open>
  The callback of the diagram timer: return if a firing is at work or no node is of class
  \<open>mermaid\<close>; else raise the flag, run the loop, and lower the flag. The statement that
  lowers the flag comes after the loop, so an exception that leaves the loop leaves the
  flag raised. The firing is taken as one step: no pass is interleaved at the \<open>await\<close>
  of the engine call.
\<close>

definition mermaid_timer_fires :: "collaborators \<Rightarrow> browser \<Rightarrow> release \<Rightarrow> akari \<Rightarrow> akari" where
  "mermaid_timer_fires C B v st =
     (if isMermaidWorking st then st
      else if length (querySelectorAll_mermaid (container st)) = 0 then st
      else (let st1 = st\<lparr>isMermaidWorking := True\<rparr>;
                (nodes, log) = fire_nodes C B v (container st1)
                                 \<lparr>calls = engine_calls st1, warnings = console_warn st1, uncaught = None\<rparr>;
                st2 = st1\<lparr>container := nodes, engine_calls := calls log, console_warn := warnings log\<rparr>
            in (case uncaught log of
                  None \<Rightarrow> st2\<lparr>isMermaidWorking := False\<rparr>
                | Some err \<Rightarrow> st2\<lparr>unhandled := unhandled st2 @ [err]\<rparr>)))"

text \<open>
  The sources for which one firing reaches the \<open>try\<close> when no exception leaves its loop:
  those of the listed nodes that neither hold an \<open>svg\<close> nor have an empty source, in
  document order.
\<close>

definition pending_codes :: "browser \<Rightarrow> release \<Rightarrow> node list \<Rightarrow> jsstring list" where
  "pending_codes B v nodes =
     map (node_code B v) (filter (is_pending B v) (querySelectorAll_mermaid nodes))"

section \<open>Notions used to state the properties of the codec\<close>

text \<open>The tokens that a pass has entered into its two tables, code table first.\<close>

definition tokens_of :: "codec_state \<Rightarrow> jsstring list" where
  "tokens_of st = map fst (codeMap st) @ map fst (mathMap st)"

text \<open>The five shapes of a token with number \<open>n\<close>.\<close>

definition token_shapes :: "nat \<Rightarrow> jsstring list" where
  "token_shapes n =
     [make_key ''CODEBLOCK'' n ''ENDCODE'', make_key ''CODEINLINE'' n ''ENDCODE'',
      make_key ''ESCAPEDDOLLAR'' n ''END'', make_key ''MATHBLOCK'' n ''ENDMATH'',
      make_key ''MATHINLINE'' n ''ENDMATH'']"

text \<open>The number that the decimal digits of a string spell, read left to right.\<close>

definition is_digit_unit :: "unit16 \<Rightarrow> bool" where
  "is_digit_unit c = (0x30 \<le> c \<and> c \<le> 0x39)"

definition decode_digits :: "jsstring \<Rightarrow> nat" where
  "decode_digits s = foldl (\<lambda>a c. 10 * a + (unat c - 48)) 0 s"

definition key_number :: "jsstring \<Rightarrow> nat" where
  "key_number key = decode_digits (filter is_digit_unit key)"

text \<open>
  A text in which every inline-math candidate, at whatever index the expression matches,
  has a body with a unit in the range \<open>U+4E00\<close> to \<open>U+9FA5\<close> and without \<open>\text\<close>.
\<close>

definition cjk_candidate_at :: "jsstring \<Rightarrow> nat \<Rightarrow> bool" where
  "cjk_candidate_at text n =
     (case match_inline_math False (drop n text) of
        None \<Rightarrow> True
      | Some (len, tex) \<Rightarrow> list_ex in_cjk_range tex \<and> \<not> str_includes tex text_marker)"

definition only_cjk_candidates :: "jsstring \<Rightarrow> bool" where
  "only_cjk_candidates text = list_all (cjk_candidate_at text) [0..<length text]"

text \<open>
  An entry of the math table that is not one of an inline candidate left as prose: it is
  a block, or its body holds no unit in the range \<open>U+4E00\<close> to \<open>U+9FA5\<close>, or it includes
  \<open>\text\<close>.
\<close>

definition typeset_entry :: "jsstring \<times> jsstring \<times> bool \<Rightarrow> bool" where
  "typeset_entry entry =
     (case entry of (key, tex, display) \<Rightarrow>
        display \<or> \<not> list_ex in_cjk_range tex \<or> str_includes tex text_marker)"

text \<open>
  The tables of a pass are in order when there is one token for each value the counter
  has passed, every token has one of the five shapes with a number below the counter,
  and no two tokens have the same number.
\<close>

definition tokens_numbered :: "codec_state \<Rightarrow> bool" where
  "tokens_numbered st =
     (length (tokens_of st) = counter st \<and>
      list_all (\<lambda>k. key_number k < counter st \<and> k \<in> set (token_shapes (key_number k))) (tokens_of st) \<and>
      distinct (map key_number (tokens_of st)))"

section \<open>Notions used to state the properties of the fence callback\<close>


section \<open>A browser for the examples\<close>

text \<open>
  The examples below need one concrete browser. Its parser returns the nodes it is given
  (the tree that the markup of the example stands for), and its serialiser writes tags,
  attributes and children in order.
\<close>

fun markup_of :: "node \<Rightarrow> jsstring"
  and markup_of_list :: "node list \<Rightarrow> jsstring" where
  "markup_of (TextNode d) = d"
| "markup_of (CommentNode d) = js ''<!--'' @ d @ js ''-->''"
| "markup_of (ElementNode t as cs) =
     js ''<'' @ t @ concat (map (\<lambda>(k, x). js '' '' @ k @ js ''=\"'' @ x @ js ''\"'') as) @ js ''>''
     @ markup_of_list cs @ js ''</'' @ t @ js ''>''"
| "markup_of_list [] = []"
| "markup_of_list (n # ns) = markup_of n @ markup_of_list ns"

definition example_browser :: "node list \<Rightarrow> browser" where
  "example_browser parsed =
     \<lparr>parse_fragment = (\<lambda>html. parsed), outerHTML = markup_of, decodeHtml = (\<lambda>s. s)\<rparr>"

text \<open>A pending diagram node, as the renderer writes it, and the same node once materialized.\<close>

definition pending_diagram :: node where
  "pending_diagram =
     ElementNode (js ''DIV'') [(js ''class'', js ''mermaid''), (js ''data-code'', js ''1t'')]
       [TextNode (js ''A'')]"

definition materialized_diagram :: node where
  "materialized_diagram =
     ElementNode (js ''DIV'')
       [(js ''class'', js ''mermaid''), (js ''data-code'', js ''1t''), (js ''data-rendered'', js ''true'')]
       [ElementNode (js ''svg'') [] []]"


text \<open>
  Collaborators for the examples: no hooks, a sanitizer and a typesetter that return their
  input, no highlighting; the parser and the diagram engine are given.
\<close>

definition example_collaborators ::
  "((jsstring \<Rightarrow> jsstring option \<Rightarrow> js_error + jsstring) \<Rightarrow> jsstring \<Rightarrow> js_error + jsstring)
     \<Rightarrow> (nat \<Rightarrow> jsstring \<Rightarrow> js_error + jsstring) \<Rightarrow> collaborators" where
  "example_collaborators parser engine =
     \<lparr>beforeParse = None, marked_parse = parser, sanitize = Inr, afterSanitize = None,
      renderToString = (\<lambda>tex display. Inr tex), onRendered = None,
      hljs = \<lparr>getLanguage = (\<lambda>lang. False), highlight = (\<lambda>code lang. Inr code)\<rparr>,
      mermaid_render = engine\<rparr>"

text \<open>A parser that raises, and an engine that rejects its first call and accepts the others.\<close>

definition failing_parser ::
  "(jsstring \<Rightarrow> jsstring option \<Rightarrow> js_error + jsstring) \<Rightarrow> jsstring \<Rightarrow> js_error + jsstring" where
  "failing_parser callback text = Inl (Error (js ''parse failed''))"

definition flaky_engine :: "nat \<Rightarrow> jsstring \<Rightarrow> js_error + jsstring" where
  "flaky_engine call code = (if call = 0 then Inl (Error (js ''syntax error'')) else Inr (js ''<svg></svg>''))"

definition diagram_div :: "jsstring \<Rightarrow> node" where
  "diagram_div source =
     ElementNode (js ''DIV'') [(js ''class'', js ''mermaid''), (js ''data-code'', hashCode source)]
       [TextNode source]"

text \<open>
  An engine that rejects its first call with a plain object, which has no \<open>message\<close>, and
  accepts the others.
\<close>

definition message_less_engine :: "nat \<Rightarrow> jsstring \<Rightarrow> js_error + jsstring" where
  "message_less_engine call code =
     (if call = 0 then Inl (Thrown (JSObject 0)) else Inr (js ''<svg></svg>''))"





section \<open>Properties of the reconciler\<close>

lemma patch_node_again:
  "patch_node B v i n (fst (patch_node B v i n old)) = (fst (patch_node B v i n old), [])"
  by (cases n; cases old) (auto simp: patch_node_def)

lemma updateDOM_loop_surplus_old: "fst (updateDOM_loop B v i [] olds) = []"
  by (induction olds arbitrary: i) (simp_all add: split_beta)

lemma updateDOM_loop_again:
  "updateDOM_loop B v i news (fst (updateDOM_loop B v i news olds)) =
     (fst (updateDOM_loop B v i news olds), [])"
proof (induction news arbitrary: i olds)
  case Nil
  show ?case by (simp add: updateDOM_loop_surplus_old)
next
  case (Cons n news)
  show ?case
  proof (cases olds)
    case Nil
    have "patch_node B v i n n = (n, [])"
      by (cases n) (auto simp: patch_node_def)
    with Cons [of "Suc i" "[]"] Nil show ?thesis
      by (simp add: split_beta)
  next
    case (Cons old olds')
    with Cons.IH [of "Suc i" olds'] show ?thesis
      by (simp add: split_beta patch_node_again)
  qed
qed

lemma performRender_twice:
  assumes "onRendered C = None"
  shows "container (performRender C B v False (performRender C B v False st))
           = container (performRender C B v False st)"
  using assms
  by (auto simp: performRender_def caught_def scheduleMermaidRender_def run_hook_def
      split_beta Let_def updateDOM_def updateDOM_loop_again split: sum.splits option.splits)

text \<open>
  C1. Idempotence of the reconciler, in both releases: when \<open>_updateDOM\<close> has brought the
  container to a markup string, applying it again to the same string makes no append, no
  removal, no replacement and no text update, and leaves the children as they are. So a
  second pass on an unchanged source leaves the container as the first pass left it
  (the host's \<open>onRendered\<close> hook, which is handed the container, being absent). Where an
  old and a new node meet, a text is written only if the two texts differ, and a node is
  replaced only if kind or tag differ, or if the serialisations differ and the
  preservation rule does not hold.
\<close>

theorem updateDOM_second_pass_no_mutation:
  "updateDOM B v (fst (updateDOM B v live html)) html =
     (fst (updateDOM B v live html), []) \<and>
   (onRendered C = None \<longrightarrow>
      container (performRender C B v False (performRender C B v False st))
        = container (performRender C B v False st)) \<and>
   list_all
     (\<lambda>m. case m of
        SetTextContent j x \<Rightarrow>
          nodeType newNode = TEXT_NODE \<and> textContent newNode \<noteq> textContent oldNode
      | ReplaceChild j n \<Rightarrow>
          nodeType newNode \<noteq> nodeType oldNode \<or> tagName newNode \<noteq> tagName oldNode
          \<or> (outerHTML B newNode \<noteq> outerHTML B oldNode \<and> \<not> preserved v newNode oldNode)
      | AppendChild j n \<Rightarrow> False
      | RemoveChild j \<Rightarrow> False)
     (snd (patch_node B v i newNode oldNode))"
proof -
  have "updateDOM B v (fst (updateDOM B v live html)) html = (fst (updateDOM B v live html), [])"
    by (simp add: updateDOM_def updateDOM_loop_again)
  moreover have "list_all
     (\<lambda>m. case m of
        SetTextContent j x \<Rightarrow>
          nodeType newNode = TEXT_NODE \<and> textContent newNode \<noteq> textContent oldNode
      | ReplaceChild j n \<Rightarrow>
          nodeType newNode \<noteq> nodeType oldNode \<or> tagName newNode \<noteq> tagName oldNode
          \<or> (outerHTML B newNode \<noteq> outerHTML B oldNode \<and> \<not> preserved v newNode oldNode)
      | AppendChild j n \<Rightarrow> False
      | RemoveChild j \<Rightarrow> False)
     (snd (patch_node B v i newNode oldNode))"
    by (auto simp: patch_node_def)
  ultimately show ?thesis
    by (simp add: performRender_twice)
qed

theorem updateDOM_second_pass_no_mutation_witness:
  "updateDOM (example_browser [TextNode (js ''ab''), pending_diagram]) V1_2_0
     (fst (updateDOM (example_browser [TextNode (js ''ab''), pending_diagram]) V1_2_0
            [TextNode (js ''a''), materialized_diagram, CommentNode (js ''x'')] (js ''ab'')))
     (js ''ab'')
   = ([TextNode (js ''ab''), materialized_diagram], [])"
proof -
  have first: "fst (updateDOM (example_browser [TextNode (js ''ab''), pending_diagram]) V1_2_0
            [TextNode (js ''a''), materialized_diagram, CommentNode (js ''x'')] (js ''ab''))
        = [TextNode (js ''ab''), materialized_diagram]"
    by (simp add: updateDOM_def example_browser_def patch_node_def preserved_def
        pending_diagram_def materialized_diagram_def classList_contains_def className_def
        dataset_rendered_def is_ascii_ws_def js_def)
  from updateDOM_second_pass_no_mutation
      [of "example_browser [TextNode (js ''ab''), pending_diagram]" V1_2_0
          "[TextNode (js ''a''), materialized_diagram, CommentNode (js ''x'')]" "js ''ab''",
       THEN conjunct1]
  show ?thesis
    by (simp only: first)
qed

lemma digits_radix_nonempty: "digits_radix r n \<noteq> []"
  by (subst digits_radix.simps) simp

lemma hashCode_nonempty: "hashCode str \<noteq> []"
  by (simp add: hashCode_def int_toString_def digits_radix_nonempty)

lemma patch_node_index:
  "m \<in> set (snd (patch_node B v i n old)) \<Longrightarrow> mutation_index m = i"
  by (auto simp: patch_node_def split: if_splits)

lemma updateDOM_loop_index_lower:
  "m \<in> set (snd (updateDOM_loop B v i news olds)) \<Longrightarrow> i \<le> mutation_index m"
proof (induction B v i news olds rule: updateDOM_loop.induct)
  case (4 B v i newNode newNodes oldNode oldNodes)
  from "4.prems" "4.IH" [OF refl prod.collapse] show ?case
    by (auto simp: split_beta dest: patch_node_index)
qed (auto simp: split_beta)

lemma updateDOM_loop_nth:
  "k < length news \<Longrightarrow> k < length olds \<Longrightarrow>
   fst (updateDOM_loop B v i news olds) ! k = fst (patch_node B v (i + k) (news ! k) (olds ! k))"
proof (induction news arbitrary: i olds k)
  case Nil
  then show ?case by simp
next
  case (Cons n news)
  then obtain old olds' where olds: "olds = old # olds'" by (cases olds) auto
  show ?case
  proof (cases k)
    case 0
    then show ?thesis by (simp add: olds split_beta)
  next
    case (Suc j)
    with Cons.prems olds Cons.IH [of j olds' "Suc i"] show ?thesis
      by (simp add: split_beta)
  qed
qed

lemma updateDOM_loop_skip_silent:
  "k < length news \<Longrightarrow> k < length olds \<Longrightarrow>
   snd (patch_node B v (i + k) (news ! k) (olds ! k)) = [] \<Longrightarrow>
   m \<in> set (snd (updateDOM_loop B v i news olds)) \<Longrightarrow> mutation_index m \<noteq> i + k"
proof (induction news arbitrary: i olds k)
  case Nil
  then show ?case by simp
next
  case (Cons n news)
  then obtain old olds' where olds: "olds = old # olds'" by (cases olds) auto
  show ?case
  proof (cases k)
    case 0
    with Cons.prems olds show ?thesis
      by (auto simp: split_beta dest: updateDOM_loop_index_lower)
  next
    case (Suc j)
    from Cons.prems(4) olds
    consider "m \<in> set (snd (patch_node B v i n old))"
      | "m \<in> set (snd (updateDOM_loop B v (Suc i) news olds'))"
      by (auto simp: split_beta)
    then show ?thesis
    proof cases
      case 1
      then show ?thesis using Suc by (auto dest: patch_node_index)
    next
      case 2
      with Cons.prems olds Suc Cons.IH [of j olds' "Suc i"] show ?thesis by simp
    qed
  qed
qed

lemma patch_node_preserved:
  "nodeType newNode = ELEMENT_NODE \<Longrightarrow> nodeType oldNode = ELEMENT_NODE \<Longrightarrow>
   tagName newNode = tagName oldNode \<Longrightarrow> preserved v newNode oldNode \<Longrightarrow>
   patch_node B v i newNode oldNode = (oldNode, [])"
  by (simp add: patch_node_def)

lemma closed_markup:
  assumes "checkMermaidIntegrity v md (if v = V1_2_0 then decodeHtml B code else code)"
  shows "renderer_code B H v md code (Some (js ''mermaid''))
           = js ''<div class=\"mermaid\" data-code=\"''
             @ hashCode (if v = V1_2_0 then decodeHtml B code else code) @ js ''\">''
             @ (if v = V1_2_0 then escapeHtml (decodeHtml B code) else code) @ js ''</div>''"
  using assms by (simp add: renderer_code_def Let_def)

text \<open>
  C2. The preservation rule, in both releases. At a position \<open>k\<close> where the candidate and
  the old node are elements of the same tag, the candidate is a diagram node (class
  \<open>mermaid\<close>), the old node is a materialized diagram node (class \<open>mermaid\<close>, and
  \<open>data-rendered="true"\<close> in v1.2.0 or an \<open>svg\<close> descendant in v1.1.0), and both carry the
  same non-empty \<open>data-code\<close>, the reconciler keeps the old node as it is and logs no
  mutation at \<open>k\<close>, whatever the two serialisations are. The fingerprint is never empty,
  and the one that the fence callback writes for a closed diagram block is \<open>_hashCode\<close> of
  the block's content, whatever the rest of the source is.
\<close>

theorem mermaid_preservation:
  assumes "k < length (parse_fragment B html)" and "k < length live"
    and "nodeType (parse_fragment B html ! k) = ELEMENT_NODE"
    and "nodeType (live ! k) = ELEMENT_NODE"
    and "tagName (parse_fragment B html ! k) = tagName (live ! k)"
    and "classList_contains (parse_fragment B html ! k) (js ''mermaid'')"
    and "classList_contains (live ! k) (js ''mermaid'')"
    and "materialized v (live ! k)"
    and "getAttribute (parse_fragment B html ! k) (js ''data-code'') = Some h"
    and "getAttribute (live ! k) (js ''data-code'') = Some h"
    and "h \<noteq> []"
  shows "fst (updateDOM B v live html) ! k = live ! k \<and>
         (\<forall>m \<in> set (snd (updateDOM B v live html)). mutation_index m \<noteq> k) \<and>
         hashCode code \<noteq> [] \<and>
         (checkMermaidIntegrity v md (if v = V1_2_0 then decodeHtml B code else code) \<longrightarrow>
            renderer_code B H v md code (Some (js ''mermaid''))
              = js ''<div class=\"mermaid\" data-code=\"''
                @ hashCode (if v = V1_2_0 then decodeHtml B code else code) @ js ''\">''
                @ (if v = V1_2_0 then escapeHtml (decodeHtml B code) else code) @ js ''</div>'')"
proof -
  have p: "preserved v (parse_fragment B html ! k) (live ! k)"
    using assms by (simp add: preserved_def)
  have skip: "patch_node B v (0 + k) (parse_fragment B html ! k) (live ! k) = (live ! k, [])"
    using assms p by (simp add: patch_node_preserved)
  have "fst (updateDOM B v live html) ! k = live ! k"
    using assms(1,2) skip by (simp add: updateDOM_def updateDOM_loop_nth)
  moreover have "\<forall>m \<in> set (snd (updateDOM B v live html)). mutation_index m \<noteq> k"
    using updateDOM_loop_skip_silent [OF assms(1,2), of B v 0] skip
    by (auto simp: updateDOM_def)
  ultimately show ?thesis by (simp add: hashCode_nonempty closed_markup)
qed

theorem mermaid_preservation_witness:
  "classList_contains pending_diagram (js ''mermaid'') \<and>
   materialized V1_2_0 materialized_diagram \<and>
   getAttribute pending_diagram (js ''data-code'') = Some (hashCode (js ''A'')) \<and>
   getAttribute materialized_diagram (js ''data-code'') = Some (hashCode (js ''A'')) \<and>
   markup_of pending_diagram \<noteq> markup_of materialized_diagram \<and>
   updateDOM (example_browser [pending_diagram]) V1_2_0 [materialized_diagram] (js ''x'')
     = ([materialized_diagram], [])"
proof -
  have h: "hashCode (js ''A'') = js ''1t''"
    by (simp add: hashCode_def js_def int_toString_def digit_unit_def digits_radix.simps)
  have c1: "classList_contains pending_diagram (js ''mermaid'')"
    and c2: "classList_contains materialized_diagram (js ''mermaid'')"
    by (simp_all add: pending_diagram_def materialized_diagram_def classList_contains_def
        className_def is_ascii_ws_def js_def)
  have m: "materialized V1_2_0 materialized_diagram"
    by (simp add: materialized_diagram_def dataset_rendered_def js_def)
  have a1: "getAttribute pending_diagram (js ''data-code'') = Some (js ''1t'')"
    and a2: "getAttribute materialized_diagram (js ''data-code'') = Some (js ''1t'')"
    by (simp_all add: pending_diagram_def materialized_diagram_def js_def)
  have ne: "js ''1t'' \<noteq> []" by (simp add: js_def)
  have differ: "markup_of pending_diagram \<noteq> markup_of materialized_diagram"
    by (simp add: pending_diagram_def materialized_diagram_def js_def)
  have upd: "snd (updateDOM (example_browser [pending_diagram]) V1_2_0 [materialized_diagram] (js ''x'')) = []"
  proof -
    have "preserved V1_2_0 pending_diagram materialized_diagram"
      using c1 c2 m a1 a2 ne by (simp add: preserved_def)
    moreover have "nodeType pending_diagram = ELEMENT_NODE"
      "nodeType materialized_diagram = ELEMENT_NODE"
      "tagName pending_diagram = tagName materialized_diagram"
      by (simp_all add: pending_diagram_def materialized_diagram_def)
    ultimately show ?thesis
      by (simp add: updateDOM_def example_browser_def patch_node_preserved)
  qed
  have "fst (updateDOM (example_browser [pending_diagram]) V1_2_0 [materialized_diagram] (js ''x'')) ! 0
          = [materialized_diagram] ! 0"
    using mermaid_preservation [of 0 "example_browser [pending_diagram]" "js ''x''"
        "[materialized_diagram]" V1_2_0 "js ''1t''" "js ''A''"] c1 c2 m a1 a2 ne
    by (simp add: example_browser_def pending_diagram_def materialized_diagram_def)
  then have "fst (updateDOM (example_browser [pending_diagram]) V1_2_0 [materialized_diagram] (js ''x''))
          = [materialized_diagram]"
    by (simp add: updateDOM_def example_browser_def split_beta)
  with upd c1 m a1 a2 h differ show ?thesis
    by (simp add: prod_eq_iff)
qed
section \<open>Properties of the passes and of the diagram timer\<close>

lemma performRender_latestMarkdown:
  "latestMarkdown (performRender C B v force st) = latestMarkdown st"
  by (simp add: performRender_def caught_def scheduleMermaidRender_def split_beta Let_def
      split: sum.splits)

lemma or_empty_truthy: "ToBoolean (or_empty t) = ToBoolean t"
  by (simp add: or_empty_def)

lemma or_empty_string: "is_string (or_empty t) = (is_string t \<or> \<not> ToBoolean t)"
  by (cases t) (simp_all add: or_empty_def)

lemma stored_by_render: "get_value (render C B v t force st) = or_empty t"
  by (simp add: get_value_def render_def performRender_latestMarkdown clearTimers_def Let_def)

text \<open>
  C10, as the code has it. After \<open>render(t)\<close>, forced or not, and after the setter, the
  getter returns \<open>t\<close> itself when \<open>t\<close> is truthy and the empty string when \<open>t\<close> is falsy: a
  string \<open>t\<close> comes back as it is, and \<open>null\<close>, \<open>undefined\<close>, \<open>false\<close>, \<open>+0\<close>, \<open>-0\<close>, \<open>NaN\<close> and \<open>0n\<close>
  come back as the empty string. What the getter returns is never \<open>null\<close> or \<open>undefined\<close>,
  is falsy only when it is the empty string, and is a string exactly when \<open>t\<close> is a string
  or falsy. The constructor stores the empty string, and the encode step on the empty
  string returns the empty string and leaves the tables as they are.
\<close>

theorem render_stores_truthy_argument:
  "get_value (render C B v t force st) = (if ToBoolean t then t else JSString []) \<and>
   get_value (set_value C B v t st) = (if ToBoolean t then t else JSString []) \<and>
   get_value (render C B v (JSString s) force st) = JSString s \<and>
   get_value (render C B v JSNull force st) = JSString [] \<and>
   get_value (render C B v JSUndefined force st) = JSString [] \<and>
   get_value (render C B v (JSBoolean False) force st) = JSString [] \<and>
   get_value (render C B v (JSNumber 0) force st) = JSString [] \<and>
   get_value (render C B v (JSNumber 0x8000000000000000) force st) = JSString [] \<and>
   get_value (render C B v (JSNumber 0x7FF8000000000000) force st) = JSString [] \<and>
   get_value (render C B v (JSBigInt 0) force st) = JSString [] \<and>
   get_value (render C B v t force st) \<noteq> JSNull \<and>
   get_value (render C B v t force st) \<noteq> JSUndefined \<and>
   ToBoolean (get_value (render C B v t force st)) = ToBoolean t \<and>
   is_string (get_value (render C B v t force st)) = (is_string t \<or> \<not> ToBoolean t) \<and>
   get_value constructed = JSString [] \<and>
   protectCodeAndMath [] tb = ([], tb) \<and>
   protectCodeAndMath_value (JSString []) tb = Inr ([], tb)"
proof -
  have "or_empty t \<noteq> JSNull" "or_empty t \<noteq> JSUndefined"
    by (auto simp: or_empty_def)
  moreover have "or_empty (JSString s) = JSString s"
    by (simp add: or_empty_def)
  moreover have "or_empty (JSNumber 0) = JSString []"
    "or_empty (JSNumber 0x8000000000000000) = JSString []"
    "or_empty (JSNumber 0x7FF8000000000000) = JSString []"
    by (simp_all add: or_empty_def double_is_zero_def double_is_nan_def)
  ultimately show ?thesis
    using or_empty_truthy [of t] or_empty_string [of t]
    by (simp add: stored_by_render set_value_def)
      (simp add: or_empty_def get_value_def constructed_def protectCodeAndMath_def
        protectCodeAndMath_value_def)
qed

text \<open>
  The argument need not be a string: \<open>render(123, true)\<close> stores the number 123 (the double
  \<open>0x405EC00000000000\<close>), the getter returns that number, and the forced pass ends in its
  \<open>catch\<close> with the \<open>TypeError\<close> of \<open>processed.replace\<close>.
\<close>

theorem render_number_counterexample:
  "get_value (render (example_collaborators failing_parser flaky_engine) (example_browser [])
       V1_2_0 (JSNumber 0x405EC00000000000) True constructed) = JSNumber 0x405EC00000000000 \<and>
   \<not> is_string (get_value (render (example_collaborators failing_parser flaky_engine)
       (example_browser []) V1_2_0 (JSNumber 0x405EC00000000000) True constructed)) \<and>
   console_error (render (example_collaborators failing_parser flaky_engine) (example_browser [])
       V1_2_0 (JSNumber 0x405EC00000000000) True constructed)
     = [TypeError (js ''processed.replace is not a function'')]"
proof -
  have truthy: "ToBoolean (JSNumber 0x405EC00000000000)"
    by (simp add: double_is_zero_def double_is_nan_def)
  then show ?thesis
    by (simp add: get_value_def render_def performRender_def clearTimers_def Let_def
        or_empty_def run_hook_def example_collaborators_def protectCodeAndMath_value_def
        caught_def constructed_def)
qed

text \<open>
  C8. When the parser raises, or the sanitizer raises on what the parser returned, the
  pass ends in its \<open>catch\<close>: the children of the container are those the pass found, the
  error is appended to the error log, and no diagram timer is set by this pass.
\<close>

theorem failed_pass_leaves_tree:
  assumes "run_hook (beforeParse C) (latestMarkdown st) = Inr text"
    and "protectCodeAndMath_value text cleared = Inr (processed, tb)"
    and "marked_parse C (renderer_code_value B (hljs C) v (latestMarkdown st)) processed = Inl err
         \<or> (\<exists>parsed. marked_parse C (renderer_code_value B (hljs C) v (latestMarkdown st))
                processed = Inr parsed
              \<and> sanitize C parsed = Inl err)"
  shows "container (performRender C B v force st) = container st \<and>
         console_error (performRender C B v force st) = console_error st @ [err] \<and>
         mermaidTimer (performRender C B v force st) = mermaidTimer st"
  using assms
  by (auto simp: performRender_def caught_def split_beta)


lemma materialize_calls:
  "calls (snd (materialize C B v t as cs code log)) = calls log @ [code]"
  by (simp add: materialize_def split: sum.splits option.splits)

lemma materialize_uncaught:
  "uncaught log = None \<Longrightarrow> v = V1_1_0 \<or> (\<forall>k c x. mermaid_render C k c \<noteq> Inl (Thrown x)) \<Longrightarrow>
   uncaught (snd (materialize C B v t as cs code log)) = None"
  by (cases "mermaid_render C (length (calls log)) code")
    (auto simp: materialize_def split: sum.splits option.splits elim: error_message.elims)

lemma pending_codes_Cons:
  "pending_codes B v (n # ns) = pending_codes B v [n] @ pending_codes B v ns"
  by (cases n) (simp_all add: pending_codes_def)

text \<open>
  When every rejection of the engine carries a message, and in v1.1.0 whatever the engine
  rejects with, no exception leaves the loop: a firing hands the source of every pending
  node to the engine, in document order.
\<close>

lemma fire_calls:
  assumes "v = V1_1_0 \<or> (\<forall>k c x. mermaid_render C k c \<noteq> Inl (Thrown x))"
  shows "uncaught log = None \<Longrightarrow>
           uncaught (snd (fire_node C B v n log)) = None
           \<and> calls (snd (fire_node C B v n log)) = calls log @ pending_codes B v [n]"
    and "uncaught log = None \<Longrightarrow>
           uncaught (snd (fire_nodes C B v ns log)) = None
           \<and> calls (snd (fire_nodes C B v ns log)) = calls log @ pending_codes B v ns"
  using assms
proof (induction C B v n log and C B v ns log rule: fire_node_fire_nodes.induct)
  case (3 C B v t as cs log)
  show ?case
  proof (cases "classList_contains (ElementNode t as cs) (js ''mermaid'') \<and> is_pending B v (ElementNode t as cs)")
    case True
    let ?m = "materialize C B v t as cs (node_code B v (ElementNode t as cs)) log"
    have u: "uncaught (snd ?m) = None"
      using "3.prems" by (simp add: materialize_uncaught)
    from 3(1) [OF _ True refl prod.collapse u "3.prems"(2)] "3.prems"(1) True show ?thesis
      by (simp add: split_beta pending_codes_def materialize_calls)
  next
    case False
    with 3(2) [OF _ False "3.prems"(1) "3.prems"(2)] "3.prems"(1) show ?thesis
      by (auto simp: split_beta pending_codes_def)
  qed
next
  case (5 C B v n ns log)
  from 5(1) [OF "5.prems"] have a: "uncaught (snd (fire_node C B v n log)) = None"
    and b: "calls (snd (fire_node C B v n log)) = calls log @ pending_codes B v [n]"
    by simp_all
  from 5(2) [OF refl prod.collapse a "5.prems"(2)] b show ?case
    by (simp add: split_beta pending_codes_Cons [of B v n ns])
qed (simp_all add: pending_codes_def)










text \<open>
  C7. In v1.2.0 the \<open>catch\<close> of the loop body reads \<open>err.message\<close> and hands it to
  \<open>_escapeHtml\<close>. When the engine rejects the first of two pending diagrams with a value
  that has no message, the \<open>TypeError\<close> raised inside the \<open>catch\<close> leaves the loop: the second
  diagram is never handed to the engine, the first keeps its source and gets no error
  banner, and \<open>_isMermaidWorking\<close> stays raised, so that every later firing returns at once.
  In v1.1.0, whose \<open>catch\<close> does not read the message, the same firing hands both diagrams
  to the engine and lowers the flag.
\<close>

theorem message_less_rejection_escapes:
  "engine_calls (mermaid_timer_fires (example_collaborators failing_parser message_less_engine)
       (example_browser [ElementNode (js ''svg'') [] []]) V1_2_0
       (constructed\<lparr>container := [diagram_div (js ''A''), diagram_div (js ''B'')]\<rparr>))
     = [js ''A''] \<and>
   container (mermaid_timer_fires (example_collaborators failing_parser message_less_engine)
       (example_browser [ElementNode (js ''svg'') [] []]) V1_2_0
       (constructed\<lparr>container := [diagram_div (js ''A''), diagram_div (js ''B'')]\<rparr>))
     = [diagram_div (js ''A''), diagram_div (js ''B'')] \<and>
   isMermaidWorking (mermaid_timer_fires (example_collaborators failing_parser message_less_engine)
       (example_browser [ElementNode (js ''svg'') [] []]) V1_2_0
       (constructed\<lparr>container := [diagram_div (js ''A''), diagram_div (js ''B'')]\<rparr>)) \<and>
   unhandled (mermaid_timer_fires (example_collaborators failing_parser message_less_engine)
       (example_browser [ElementNode (js ''svg'') [] []]) V1_2_0
       (constructed\<lparr>container := [diagram_div (js ''A''), diagram_div (js ''B'')]\<rparr>))
     = [TypeError (js ''Cannot read properties of undefined (reading 'replace')'')] \<and>
   engine_calls (mermaid_timer_fires (example_collaborators failing_parser flaky_engine)
       (example_browser [ElementNode (js ''svg'') [] []]) V1_2_0
       (mermaid_timer_fires (example_collaborators failing_parser message_less_engine)
          (example_browser [ElementNode (js ''svg'') [] []]) V1_2_0
          (constructed\<lparr>container := [diagram_div (js ''A''), diagram_div (js ''B'')]\<rparr>)))
     = [js ''A''] \<and>
   engine_calls (mermaid_timer_fires (example_collaborators failing_parser message_less_engine)
       (example_browser [ElementNode (js ''svg'') [] []]) V1_1_0
       (constructed\<lparr>container := [diagram_div (js ''A''), diagram_div (js ''B'')]\<rparr>))
     = [js ''A'', js ''B''] \<and>
   \<not> isMermaidWorking (mermaid_timer_fires (example_collaborators failing_parser message_less_engine)
       (example_browser [ElementNode (js ''svg'') [] []]) V1_1_0
       (constructed\<lparr>container := [diagram_div (js ''A''), diagram_div (js ''B'')]\<rparr>))"
  by code_simp

theorem render_stores_truthy_argument_witness:
  "get_value (render (example_collaborators failing_parser flaky_engine) (example_browser [])
       V1_2_0 JSNull True constructed) = JSString [] \<and>
   get_value (render (example_collaborators failing_parser flaky_engine) (example_browser [])
       V1_2_0 (JSString (js ''abc'')) False constructed) = JSString (js ''abc'') \<and>
   is_string (get_value (render (example_collaborators failing_parser flaky_engine)
       (example_browser []) V1_2_0 (JSNumber 0) False constructed))"
proof -
  have falsy: "\<not> ToBoolean (JSNumber 0)"
    by (simp add: double_is_zero_def)
  from render_stores_truthy_argument [of "example_collaborators failing_parser flaky_engine"
      "example_browser []" V1_2_0 JSNull True constructed]
    render_stores_truthy_argument [of "example_collaborators failing_parser flaky_engine"
      "example_browser []" V1_2_0 "JSString (js ''abc'')" False constructed]
    render_stores_truthy_argument [of "example_collaborators failing_parser flaky_engine"
      "example_browser []" V1_2_0 "JSNumber 0" False constructed]
    falsy
  show ?thesis
    by (simp add: js_def)
qed

theorem failed_pass_leaves_tree_witness:
  "run_hook (beforeParse (example_collaborators failing_parser flaky_engine))
       (latestMarkdown (constructed\<lparr>latestMarkdown := JSString (js ''x''),
                                    container := [TextNode (js ''old'')]\<rparr>))
     = Inr (JSString (js ''x'')) \<and>
   protectCodeAndMath_value (JSString (js ''x'')) cleared = Inr (js ''x'', cleared) \<and>
   container (performRender (example_collaborators failing_parser flaky_engine) (example_browser [])
       V1_2_0 False (constructed\<lparr>latestMarkdown := JSString (js ''x''),
                                 container := [TextNode (js ''old'')]\<rparr>))
     = [TextNode (js ''old'')] \<and>
   console_error (performRender (example_collaborators failing_parser flaky_engine) (example_browser [])
       V1_2_0 False (constructed\<lparr>latestMarkdown := JSString (js ''x''),
                                 container := [TextNode (js ''old'')]\<rparr>))
     = [Error (js ''parse failed'')]"
proof -
  let ?C = "example_collaborators failing_parser flaky_engine"
  let ?st = "constructed\<lparr>latestMarkdown := JSString (js ''x''), container := [TextNode (js ''old'')]\<rparr>"
  have hook: "run_hook (beforeParse ?C) (latestMarkdown ?st) = Inr (JSString (js ''x''))"
    by (simp add: run_hook_def example_collaborators_def)
  have encoded: "protectCodeAndMath_value (JSString (js ''x'')) cleared = Inr (js ''x'', cleared)"
    by code_simp
  have fails: "marked_parse ?C (renderer_code_value (example_browser []) (hljs ?C) V1_2_0
           (latestMarkdown ?st)) (js ''x'') = Inl (Error (js ''parse failed''))"
    by (simp add: example_collaborators_def failing_parser_def)
  from failed_pass_leaves_tree [OF hook encoded disjI1 [OF fails], of False] hook encoded
  show ?thesis
    by (simp add: constructed_def)
qed


section \<open>Properties of the completeness detector\<close>

lemma starts_with_iff: "starts_with s p \<longleftrightarrow> (\<exists>r. s = p @ r)"
  by (induction s p rule: starts_with.induct) auto

lemma starts_with_append: "starts_with s p \<Longrightarrow> starts_with (s @ e) p"
  by (auto simp: starts_with_iff)

lemma last_index_from_sound:
  "last_index_from i s p best = Some k \<Longrightarrow>
   best = Some k \<or> (i \<le> k \<and> k - i \<le> length s \<and> starts_with (drop (k - i) s) p)"
proof (induction s arbitrary: i best)
  case Nil
  then show ?case by (auto split: if_splits)
next
  case (Cons c cs)
  from Cons.prems have "last_index_from (Suc i) cs p (if starts_with (c # cs) p then Some i else best) = Some k"
    by simp
  from Cons.IH [OF this]
  consider "(if starts_with (c # cs) p then Some i else best) = Some k"
    | "Suc i \<le> k" "k - Suc i \<le> length cs" "starts_with (drop (k - Suc i) cs) p"
    by blast
  then show ?case
  proof cases
    case 1
    then show ?thesis by (auto split: if_splits)
  next
    case 2
    then have "k - i = Suc (k - Suc i)" by simp
    with 2 show ?thesis by simp
  qed
qed

lemma lastIndexOf_sound:
  assumes "lastIndexOf s p = Some k"
  shows "k + length p \<le> length s \<and> take (length p) (drop k s) = p"
proof -
  from last_index_from_sound [OF assms [unfolded lastIndexOf_def]]
  have k: "k \<le> length s" and sw: "starts_with (drop k s) p" by auto
  from sw obtain r where r: "drop k s = p @ r" by (auto simp: starts_with_iff)
  then have "length (drop k s) = length p + length r" by simp
  with k have "k + length p \<le> length s" by simp
  with r show ?thesis by simp
qed

lemma closing_fence_follows_append:
  assumes "closing_fence_follows s"
  shows "closing_fence_follows (s @ e)"
proof -
  from assms obtain r where r: "dropWhile is_js_space s = fence @ r"
    by (auto simp: closing_fence_follows_def starts_with_iff)
  then have "dropWhile is_js_space s \<noteq> []" by (simp add: fence_def)
  then obtain x where "x \<in> set s" "\<not> is_js_space x"
    by (metis dropWhile_eq_Nil_conv)
  then have "dropWhile is_js_space (s @ e) = dropWhile is_js_space s @ e"
    by (simp add: dropWhile_append1)
  with assms show ?thesis
    by (simp add: closing_fence_follows_def starts_with_append)
qed

lemma closing_fence_follows_shape:
  assumes "closing_fence_follows s"
  shows "\<exists>ws rest. s = ws @ fence @ rest \<and> list_all is_js_space ws"
proof -
  from assms obtain r where r: "dropWhile is_js_space s = fence @ r"
    by (auto simp: closing_fence_follows_def starts_with_iff)
  have "s = takeWhile is_js_space s @ dropWhile is_js_space s" by simp
  with r have "s = takeWhile is_js_space s @ fence @ r" by simp
  moreover have "list_all is_js_space (takeWhile is_js_space s)"
    by (simp add: list_all_iff) (meson set_takeWhileD)
  ultimately show ?thesis by blast
qed

text \<open>
  C4, as the code has it. The detector anchors on the last occurrence of the search
  suffix in the whole source. A block it reports closed stays closed under every
  extension of the source that leaves that last occurrence where it is, and closed is
  reported only when the occurrence is followed by white space (possibly none) and a
  complete marker of three backticks.
\<close>

theorem closed_stays_closed_while_anchor_stays:
  assumes "checkMermaidIntegrity v md snippet"
  shows "(lastIndexOf (md @ ext) (search_part v snippet) = lastIndexOf md (search_part v snippet)
            \<longrightarrow> checkMermaidIntegrity v (md @ ext) snippet) \<and>
         (\<exists>before ws rest. md = before @ search_part v snippet @ ws @ fence @ rest
            \<and> lastIndexOf md (search_part v snippet) = Some (length before)
            \<and> list_all is_js_space ws)"
proof -
  let ?p = "search_part v snippet"
  from assms obtain k where ne: "md \<noteq> []" and tr: "length (trim snippet) \<noteq> 0"
    and k: "lastIndexOf md ?p = Some k"
    and cf: "closing_fence_follows (drop (k + length ?p) md)"
    by (auto simp: checkMermaidIntegrity_def Let_def split: if_splits option.splits)
  from lastIndexOf_sound [OF k] have le: "k + length ?p \<le> length md"
    and at: "take (length ?p) (drop k md) = ?p" by auto
  have mono: "checkMermaidIntegrity v (md @ ext) snippet"
    if same: "lastIndexOf (md @ ext) ?p = lastIndexOf md ?p"
  proof -
    from le have "drop (k + length ?p) (md @ ext) = drop (k + length ?p) md @ ext" by simp
    with cf have "closing_fence_follows (drop (k + length ?p) (md @ ext))"
      by (simp add: closing_fence_follows_append)
    with ne tr k same show ?thesis
      by (simp add: checkMermaidIntegrity_def Let_def)
  qed
  from closing_fence_follows_shape [OF cf] obtain ws rest
    where sh: "drop (k + length ?p) md = ws @ fence @ rest" and ws: "list_all is_js_space ws"
    by blast
  have "drop k md = ?p @ drop (k + length ?p) md"
    by (metis at append_take_drop_id drop_drop add.commute)
  then have "take k md @ ?p @ ws @ fence @ rest = take k md @ drop k md"
    using sh by simp
  then have "md = take k md @ ?p @ ws @ fence @ rest" by simp
  moreover from le have "length (take k md) = k" by simp
  ultimately have "md = take k md @ ?p @ ws @ fence @ rest \<and>
      lastIndexOf md ?p = Some (length (take k md)) \<and> list_all is_js_space ws"
    using k ws by simp
  then have "\<exists>before ws rest. md = before @ ?p @ ws @ fence @ rest
            \<and> lastIndexOf md ?p = Some (length before) \<and> list_all is_js_space ws"
    by blast
  with mono show ?thesis by blast
qed

theorem closed_stays_closed_while_anchor_stays_witness:
  "checkMermaidIntegrity V1_2_0 (fence @ js ''mermaid'' @ [NL] @ js ''A'' @ [NL] @ fence) (js ''A'') \<and>
   lastIndexOf ((fence @ js ''mermaid'' @ [NL] @ js ''A'' @ [NL] @ fence) @ [NL] @ js ''B'')
       (search_part V1_2_0 (js ''A''))
     = lastIndexOf (fence @ js ''mermaid'' @ [NL] @ js ''A'' @ [NL] @ fence) (search_part V1_2_0 (js ''A'')) \<and>
   checkMermaidIntegrity V1_2_0
       ((fence @ js ''mermaid'' @ [NL] @ js ''A'' @ [NL] @ fence) @ [NL] @ js ''B'') (js ''A'')"
proof -
  have closed: "checkMermaidIntegrity V1_2_0 (fence @ js ''mermaid'' @ [NL] @ js ''A'' @ [NL] @ fence) (js ''A'')"
    by code_simp
  have anchor: "lastIndexOf ((fence @ js ''mermaid'' @ [NL] @ js ''A'' @ [NL] @ fence) @ [NL] @ js ''B'')
       (search_part V1_2_0 (js ''A''))
     = lastIndexOf (fence @ js ''mermaid'' @ [NL] @ js ''A'' @ [NL] @ fence) (search_part V1_2_0 (js ''A''))"
    by code_simp
  from closed_stays_closed_while_anchor_stays [OF closed, of "[NL] @ js ''B''"] closed anchor
  show ?thesis by blast
qed

text \<open>
  The claim as stated fails when the suffix occurs again further on. The source holds a
  closed diagram block with content \<open>A\<close>; a second block with the same content starts to
  arrive; the detector, asked about the content \<open>A\<close>, now anchors on the second
  occurrence and reports unclosed.
\<close>

theorem completeness_reverts_counterexample:
  "checkMermaidIntegrity V1_2_0 (fence @ js ''mermaid'' @ [NL] @ js ''A'' @ [NL] @ fence) (js ''A'') \<and>
   \<not> checkMermaidIntegrity V1_2_0
       ((fence @ js ''mermaid'' @ [NL] @ js ''A'' @ [NL] @ fence) @ [NL] @ fence @ js ''mermaid'' @ [NL] @ js ''A'')
       (js ''A'')"
  by code_simp

section \<open>Properties of the placeholder codec\<close>

lemma replace_global_unchanged:
  assumes "\<And>n len caps b. n < length s \<Longrightarrow> m b (drop n s) = Some (len, caps) \<Longrightarrow>
             0 < len \<and> f (take len (drop n s)) caps st = (take len (drop n s), st)"
  shows "replace_global m f b skip s st = (drop skip s, st)"
  using assms
proof (induction s arbitrary: b skip)
  case Nil
  show ?case by simp
next
  case (Cons c cs)
  have tail: "replace_global m f b' k cs st = (drop k cs, st)" for b' k
  proof (rule Cons.IH)
    fix n len caps b
    assume "n < length cs" "m b (drop n cs) = Some (len, caps)"
    with Cons.prems [of "Suc n" b len caps]
    show "0 < len \<and> f (take len (drop n cs)) caps st = (take len (drop n cs), st)" by simp
  qed
  show ?case
  proof (cases "0 < skip")
    case True
    then obtain k where "skip = Suc k" by (cases skip) auto
    with tail show ?thesis by simp
  next
    case False
    show ?thesis
    proof (cases "m b (c # cs)")
      case None
      with False tail show ?thesis by simp
    next
      case (Some r)
      obtain len caps where r: "r = (len, caps)" by (cases r)
      from Cons.prems [of 0 b len caps] Some r
      have pos: "0 < len" and same: "f (take len (c # cs)) caps st = (take len (c # cs), st)"
        by auto
      from pos obtain k where k: "len = Suc k" by (cases len) auto
      from False Some r same tail [of False k] k show ?thesis by simp
    qed
  qed
qed

lemma replace_global_invariant:
  assumes "\<And>match caps s. P s \<Longrightarrow> P (snd (f match caps s))" and "P st"
  shows "P (snd (replace_global m f b skip inp st))"
  using assms(2)
proof (induction inp arbitrary: b skip st)
  case Nil
  then show ?case by simp
next
  case (Cons c cs)
  show ?case
  proof (cases "0 < skip")
    case True
    with Cons show ?thesis by simp
  next
    case False
    show ?thesis
    proof (cases "m b (c # cs)")
      case None
      with False Cons.IH [OF Cons.prems, of False 0] show ?thesis
        by (simp add: split_beta)
    next
      case (Some r)
      obtain len caps where r: "r = (len, caps)" by (cases r)
      from assms(1) [OF Cons.prems] have "P (snd (f (take len (c # cs)) caps st))" .
      from Cons.IH [OF this, of False "len - 1"] False Some r show ?thesis
        by (simp add: split_beta)
    qed
  qed
qed

lemma match_inline_math_positive:
  "match_inline_math b s = Some (len, tex) \<Longrightarrow> 0 < len"
  by (auto simp: match_inline_math_def split: list.splits if_splits option.splits)

lemma inline_math_cb_cjk:
  "list_ex in_cjk_range tex \<Longrightarrow> \<not> str_includes tex text_marker \<Longrightarrow>
   inline_math_cb match tex st = (match, st)"
  by (simp add: inline_math_cb_def)

lemma replace_global_no_match:
  assumes "\<And>n b. n < length s \<Longrightarrow> m b (drop n s) = None"
  shows "replace_global m f b 0 s st = (s, st)"
  using replace_global_unchanged [of s m f st b 0] assms by simp

lemma fence_needs_backtick: "starts_with r fence \<Longrightarrow> BACKTICK \<in> set r"
  by (auto simp: starts_with_iff fence_def)

lemma match_code_block_none: "BACKTICK \<notin> set s \<Longrightarrow> match_code_block b s = None"
  by (cases s) (auto simp: match_code_block_def fenced_at_def dest: fence_needs_backtick)

lemma match_inline_code_none: "BACKTICK \<notin> set s \<Longrightarrow> match_inline_code b s = None"
  by (cases s) (auto simp: match_inline_code_def)

lemma pair_in_suffix:
  "starts_with (drop n (xs @ [d])) [x, y] \<Longrightarrow>
   (x \<in> set xs \<and> y \<in> set xs) \<or> (xs \<noteq> [] \<and> x = last xs \<and> y = d)"
proof (induction xs arbitrary: n)
  case Nil
  then show ?case by (cases n) auto
next
  case (Cons a xs)
  show ?case
  proof (cases n)
    case 0
    with Cons.prems show ?thesis by (cases xs) auto
  next
    case (Suc k)
    with Cons.prems have "starts_with (drop k (xs @ [d])) [x, y]" by simp
    from Cons.IH [OF this] show ?thesis by auto
  qed
qed

lemma pair_in_span:
  assumes "starts_with (drop n (DOLLAR # body @ [DOLLAR])) [x, y]"
    and "body \<noteq> []"
  shows "(x = DOLLAR \<and> y = hd body) \<or> (x \<in> set body \<and> y \<in> set body)
         \<or> (x = last body \<and> y = DOLLAR)"
proof (cases n)
  case 0
  with assms show ?thesis by (cases body) auto
next
  case (Suc k)
  with assms(1) have "starts_with (drop k (body @ [DOLLAR])) [x, y]" by simp
  from pair_in_suffix [OF this] show ?thesis by auto
qed

lemma lazy_find_closing_dollar:
  "DOLLAR \<notin> set xs \<Longrightarrow> NL \<notin> set xs \<Longrightarrow>
   lazy_find not_newline (\<lambda>u. starts_with u [DOLLAR]) (xs @ [DOLLAR]) = Some (length xs)"
  by (induction xs) (auto simp: not_newline_def)

lemma span_passes_encoder:
  assumes ne: "body \<noteq> []" and nd: "DOLLAR \<notin> set body" and nn: "NL \<notin> set body"
    and nb: "BACKTICK \<notin> set body" and nl: "last body \<noteq> BACKSLASH"
    and cjk: "list_ex in_cjk_range body" and nt: "\<not> str_includes body text_marker"
  shows "protectCodeAndMath (DOLLAR # body @ [DOLLAR]) cleared = (DOLLAR # body @ [DOLLAR], cleared)"
proof -
  let ?t = "DOLLAR # body @ [DOLLAR]"
  have sub: "set (drop n ?t) \<subseteq> insert DOLLAR (set body)" for n
    using set_drop_subset [of n ?t] by auto
  have tick: "BACKTICK \<notin> set (drop n ?t)" for n
    using sub [of n] nb by auto
  have newline: "NL \<notin> set (drop n ?t)" for n
    using sub [of n] nn by auto
  have hd_body: "hd body \<in> set body" and last_body: "last body \<in> set body"
    using ne by simp_all
  have no_escape: "\<not> starts_with (drop n ?t) [BACKSLASH, DOLLAR]" for n
  proof
    assume "starts_with (drop n ?t) [BACKSLASH, DOLLAR]"
    from pair_in_span [OF this ne] nd nl show False by auto
  qed
  have no_pair: "\<not> starts_with (drop n ?t) [DOLLAR, DOLLAR]" for n
  proof
    assume "starts_with (drop n ?t) [DOLLAR, DOLLAR]"
    from pair_in_span [OF this ne] nd hd_body last_body show False by auto
  qed
  have s1: "replace_global match_code_block code_block_cb True 0 ?t st = (?t, st)" for st
    by (rule replace_global_no_match) (rule match_code_block_none, rule tick)
  have s2: "replace_global match_inline_code inline_code_cb True 0 ?t st = (?t, st)" for st
    by (rule replace_global_no_match) (rule match_inline_code_none, rule tick)
  have s3: "replace_global match_escaped_dollar escaped_dollar_cb True 0 ?t st = (?t, st)" for st
    by (rule replace_global_no_match) (simp add: match_escaped_dollar_def no_escape)
  have s4: "replace_global match_math_block math_block_cb True 0 ?t st = (?t, st)" for st
  proof (rule replace_global_no_match)
    fix n b
    have a: "math_block_at (drop n ?t) = None"
      using no_pair [of n] by (simp add: math_block_at_def)
    have b: "math_block_at r = None" if "drop n ?t = c # r" for c r
    proof -
      from that have "r = drop (Suc n) ?t"
        by (metis drop_Suc drop_tl list.sel(3))
      with no_pair [of "Suc n"] show ?thesis by (simp add: math_block_at_def)
    qed
    show "match_math_block b (drop n ?t) = None"
      using a b by (auto simp: match_math_block_def split: list.splits option.splits)
  qed
  have s5: "replace_global match_inline_math inline_math_cb True 0 ?t st = (?t, st)" for st
  proof -
    have "replace_global match_inline_math inline_math_cb True 0 ?t st = (drop 0 ?t, st)"
    proof (rule replace_global_unchanged)
      fix n len caps b
      assume n: "n < length ?t" and m: "match_inline_math b (drop n ?t) = Some (len, caps)"
      have "caps = body"
      proof (cases n)
        case 0
        obtain c rest where body: "body = c # rest" using ne by (cases body) auto
        from nd nn body have "lazy_find not_newline (\<lambda>u. starts_with u [DOLLAR]) (rest @ [DOLLAR])
            = Some (length rest)"
          by (simp add: lazy_find_closing_dollar)
        with m 0 body show ?thesis
          by (simp add: match_inline_math_def split: if_splits)
      next
        case (Suc k)
        with m have m': "match_inline_math b (drop k (body @ [DOLLAR])) = Some (len, caps)" by simp
        show ?thesis
        proof (cases "k < length body")
          case True
          then have "drop k (body @ [DOLLAR]) = drop k body @ [DOLLAR]" by simp
          moreover from True obtain c rest where d: "drop k body = c # rest"
            by (cases "drop k body") auto
          moreover have "c \<in> set body"
            using d by (metis in_set_dropD list.set_intros(1))
          ultimately show ?thesis using m' nd
            by (auto simp: match_inline_math_def split: if_splits list.splits)
        next
          case False
          then have "drop k (body @ [DOLLAR]) = drop (k - length body) [DOLLAR]" by simp
          with m' show ?thesis
            by (cases "k - length body") (auto simp: match_inline_math_def)
        qed
      qed
      with cjk nt match_inline_math_positive [OF m]
      show "0 < len \<and> inline_math_cb (take len (drop n ?t)) caps st = (take len (drop n ?t), st)"
        by (simp add: inline_math_cb_cjk)
    qed
    then show ?thesis by simp
  qed
  have stages: "protect_stages ?t cleared = (?t, cleared)"
    by (simp only: protect_stages_def s1 s2 s3 s4 s5 Let_def prod.case)
  have "codeMap cleared = []" by (simp add: cleared_def)
  with stages show ?thesis
    by (simp add: protectCodeAndMath_def restore_code_def del: replace_global.simps)
qed

lemma replace_global_skip:
  "0 < k \<Longrightarrow> replace_global m f b k s st = replace_global m f False 0 (drop k s) st"
proof (induction s arbitrary: k b)
  case Nil
  show ?case by simp
next
  case (Cons c cs)
  from Cons.prems obtain j where k: "k = Suc j" by (cases k) auto
  show ?case
  proof (cases "0 < j")
    case True
    with Cons.IH [of j False] k show ?thesis by simp
  next
    case False
    with k show ?thesis by simp
  qed
qed

lemma inline_math_stage_at_match:
  assumes m: "match_inline_math b s = Some (len, tex)"
    and cjk: "list_ex in_cjk_range tex" and nt: "\<not> str_includes tex text_marker"
  shows "replace_global match_inline_math inline_math_cb b 0 s st
           = (take len s @ fst (replace_global match_inline_math inline_math_cb False 0 (drop len s) st),
              snd (replace_global match_inline_math inline_math_cb False 0 (drop len s) st))"
proof -
  from m obtain c cs where s: "s = c # cs"
    by (cases s) (auto simp: match_inline_math_def)
  from match_inline_math_positive [OF m] obtain k where k: "len = Suc k"
    by (cases len) auto
  have rest: "replace_global match_inline_math inline_math_cb False k cs st
        = replace_global match_inline_math inline_math_cb False 0 (drop k cs) st"
    by (cases "0 < k") (simp_all add: replace_global_skip)
  from m s k rest inline_math_cb_cjk [OF cjk nt, of "take len s" st] show ?thesis
    by (simp add: split_beta)
qed

lemma list_all_map_set: "Q (k, x) \<Longrightarrow> list_all Q m \<Longrightarrow> list_all Q (map_set k x m)"
  by (induction m) auto

lemma protect_stages_invariant:
  assumes "\<And>match u s. P s \<Longrightarrow> P (snd (code_block_cb match u s))"
    and "\<And>match u s. P s \<Longrightarrow> P (snd (inline_code_cb match u s))"
    and "\<And>match u s. P s \<Longrightarrow> P (snd (escaped_dollar_cb match u s))"
    and "\<And>match caps s. P s \<Longrightarrow> P (snd (math_block_cb match caps s))"
    and "\<And>match tex s. P s \<Longrightarrow> P (snd (inline_math_cb match tex s))"
    and "P st"
  shows "P (snd (protect_stages inp st))"
proof -
  obtain p1 st1 where r1: "replace_global match_code_block code_block_cb True 0 inp st = (p1, st1)"
    by (cases "replace_global match_code_block code_block_cb True 0 inp st")
  obtain p2 st2 where r2: "replace_global match_inline_code inline_code_cb True 0 p1 st1 = (p2, st2)"
    by (cases "replace_global match_inline_code inline_code_cb True 0 p1 st1")
  obtain p3 st3 where r3: "replace_global match_escaped_dollar escaped_dollar_cb True 0 p2 st2 = (p3, st3)"
    by (cases "replace_global match_escaped_dollar escaped_dollar_cb True 0 p2 st2")
  obtain p4 st4 where r4: "replace_global match_math_block math_block_cb True 0 p3 st3 = (p4, st4)"
    by (cases "replace_global match_math_block math_block_cb True 0 p3 st3")
  from replace_global_invariant [where P = P and f = code_block_cb and m = match_code_block
      and b = True and skip = 0 and inp = inp and st = st, OF assms(1) assms(6)] r1
  have 1: "P st1" by simp
  from replace_global_invariant [where P = P and f = inline_code_cb and m = match_inline_code
      and b = True and skip = 0 and inp = p1 and st = st1, OF assms(2) 1] r2
  have 2: "P st2" by simp
  from replace_global_invariant [where P = P and f = escaped_dollar_cb and m = match_escaped_dollar
      and b = True and skip = 0 and inp = p2 and st = st2, OF assms(3) 2] r3
  have 3: "P st3" by simp
  from replace_global_invariant [where P = P and f = math_block_cb and m = match_math_block
      and b = True and skip = 0 and inp = p3 and st = st3, OF assms(4) 3] r4
  have 4: "P st4" by simp
  from replace_global_invariant [where P = P and f = inline_math_cb and m = match_inline_math
      and b = True and skip = 0 and inp = p4 and st = st4, OF assms(5) 4]
  show ?thesis
    by (simp add: protect_stages_def r1 r2 r3 r4)
qed

lemma no_prose_entry:
  "list_all typeset_entry (mathMap (snd (protectCodeAndMath doc cleared)))"
proof -
  let ?P = "\<lambda>st :: codec_state. list_all typeset_entry (mathMap st)"
  have "?P (snd (protect_stages doc cleared))"
  proof (rule protect_stages_invariant [where P = ?P])
    show "?P cleared" by (simp add: cleared_def)
  next
    fix match caps s assume "?P s"
    then show "?P (snd (math_block_cb match caps s))"
      by (cases caps) (simp add: math_block_cb_def Let_def list_all_map_set typeset_entry_def)
  next
    fix match tex s assume "?P s"
    then show "?P (snd (inline_math_cb match tex s))"
      by (auto simp: inline_math_cb_def Let_def typeset_entry_def intro!: list_all_map_set)
  qed (simp_all add: code_block_cb_def inline_code_cb_def escaped_dollar_cb_def Let_def)
  then show ?thesis
    by (simp add: protectCodeAndMath_def split_beta cleared_def)
qed

text \<open>
  C9, as the code has it. The inline-math replacement works on the text that the four
  replacements before it have left. Wherever its expression matches a span whose body
  holds a unit in the range \<open>U+4E00\<close> to \<open>U+9FA5\<close> and does not include \<open>\text\<close>, it puts out
  the span as it is, leaves the counter and the tables as they are, and goes on behind
  the span; so it returns a text unchanged, tables unchanged, when every candidate in it
  is of that kind. Whatever the document, no inline entry of the math table after the
  encoder holds such a body. And the encoder returns a document that is one such span and
  nothing else unchanged, with empty tables, when the body holds no dollar sign, newline
  or backtick and does not end in a backslash.
\<close>

theorem cjk_inline_math_left_literal:
  "in_cjk_range c = (0x4E00 \<le> c \<and> c \<le> 0x9FA5) \<and>
   text_marker = [BACKSLASH, 0x74, 0x65, 0x78, 0x74] \<and>
   (match_inline_math b s = Some (len, tex) \<and> list_ex in_cjk_range tex
      \<and> \<not> str_includes tex text_marker
      \<longrightarrow> replace_global match_inline_math inline_math_cb b 0 s st
            = (take len s
                 @ fst (replace_global match_inline_math inline_math_cb False 0 (drop len s) st),
               snd (replace_global match_inline_math inline_math_cb False 0 (drop len s) st))) \<and>
   (only_cjk_candidates inp
      \<longrightarrow> replace_global match_inline_math inline_math_cb b 0 inp st = (inp, st)) \<and>
   list_all typeset_entry (mathMap (snd (protectCodeAndMath doc cleared))) \<and>
   (body \<noteq> [] \<and> DOLLAR \<notin> set body \<and> NL \<notin> set body \<and> BACKTICK \<notin> set body
      \<and> last body \<noteq> BACKSLASH \<and> list_ex in_cjk_range body \<and> \<not> str_includes body text_marker
      \<longrightarrow> protectCodeAndMath (DOLLAR # body @ [DOLLAR]) cleared
            = (DOLLAR # body @ [DOLLAR], cleared))"
proof -
  have stage: "replace_global match_inline_math inline_math_cb b 0 inp st = (inp, st)"
    if all: "only_cjk_candidates inp"
  proof -
    have "replace_global match_inline_math inline_math_cb b 0 inp st = (drop 0 inp, st)"
    proof (rule replace_global_unchanged)
      fix n len caps b'
      assume n: "n < length inp" and m: "match_inline_math b' (drop n inp) = Some (len, caps)"
      from m have m': "match_inline_math False (drop n inp) = Some (len, caps)"
        by (simp add: match_inline_math_def)
      from all n have "cjk_candidate_at inp n"
        by (simp add: only_cjk_candidates_def list_all_iff)
      with m' have "list_ex in_cjk_range caps" "\<not> str_includes caps text_marker"
        by (simp_all add: cjk_candidate_at_def)
      with match_inline_math_positive [OF m]
      show "0 < len \<and> inline_math_cb (take len (drop n inp)) caps st = (take len (drop n inp), st)"
        by (simp add: inline_math_cb_cjk)
    qed
    then show ?thesis by simp
  qed
  have range: "in_cjk_range c = (0x4E00 \<le> c \<and> c \<le> 0x9FA5)"
    by (simp add: in_cjk_range_def)
  have marker: "text_marker = [BACKSLASH, 0x74, 0x65, 0x78, 0x74]"
    by (simp add: text_marker_def js_def)
  from stage inline_math_stage_at_match [of b s len tex st] span_passes_encoder [of body]
    no_prose_entry [of doc]
  have "(match_inline_math b s = Some (len, tex) \<and> list_ex in_cjk_range tex
      \<and> \<not> str_includes tex text_marker
      \<longrightarrow> replace_global match_inline_math inline_math_cb b 0 s st
            = (take len s
                 @ fst (replace_global match_inline_math inline_math_cb False 0 (drop len s) st),
               snd (replace_global match_inline_math inline_math_cb False 0 (drop len s) st))) \<and>
   (only_cjk_candidates inp
      \<longrightarrow> replace_global match_inline_math inline_math_cb b 0 inp st = (inp, st)) \<and>
   list_all typeset_entry (mathMap (snd (protectCodeAndMath doc cleared))) \<and>
   (body \<noteq> [] \<and> DOLLAR \<notin> set body \<and> NL \<notin> set body \<and> BACKTICK \<notin> set body
      \<and> last body \<noteq> BACKSLASH \<and> list_ex in_cjk_range body \<and> \<not> str_includes body text_marker
      \<longrightarrow> protectCodeAndMath (DOLLAR # body @ [DOLLAR]) cleared
            = (DOLLAR # body @ [DOLLAR], cleared))"
    by blast
  from conjI [OF range conjI [OF marker this]] show ?thesis .
qed

theorem cjk_inline_math_left_literal_witness:
  "in_cjk_range 0x5143 \<and>
   match_inline_math True [DOLLAR, 0x35, 0x5143, DOLLAR, 0x21] = Some (4, [0x35, 0x5143]) \<and>
   list_ex in_cjk_range [0x35, 0x5143] \<and> \<not> str_includes [0x35, 0x5143] text_marker \<and>
   only_cjk_candidates [DOLLAR, 0x35, 0x5143, DOLLAR] \<and>
   replace_global match_inline_math inline_math_cb True 0 [DOLLAR, 0x35, 0x5143, DOLLAR, 0x21] cleared
     = ([DOLLAR, 0x35, 0x5143, DOLLAR, 0x21], cleared) \<and>
   replace_global match_inline_math inline_math_cb True 0 [DOLLAR, 0x35, 0x5143, DOLLAR] cleared
     = ([DOLLAR, 0x35, 0x5143, DOLLAR], cleared) \<and>
   protectCodeAndMath [DOLLAR, 0x35, 0x5143, DOLLAR] cleared
     = ([DOLLAR, 0x35, 0x5143, DOLLAR], cleared)"
proof -
  have m: "match_inline_math True [DOLLAR, 0x35, 0x5143, DOLLAR, 0x21] = Some (4, [0x35, 0x5143])"
    by code_simp
  have a: "list_ex in_cjk_range [0x35, 0x5143]" by code_simp
  have b: "\<not> str_includes [0x35, 0x5143] text_marker" by code_simp
  have c: "only_cjk_candidates [DOLLAR, 0x35, 0x5143, DOLLAR]" by code_simp
  have d: "[0x35, 0x5143 :: unit16] \<noteq> [] \<and> DOLLAR \<notin> set [0x35, 0x5143 :: unit16]
      \<and> NL \<notin> set [0x35, 0x5143 :: unit16] \<and> BACKTICK \<notin> set [0x35, 0x5143 :: unit16]
      \<and> last [0x35, 0x5143 :: unit16] \<noteq> BACKSLASH"
    by simp
  have rest: "replace_global match_inline_math inline_math_cb False 0 [0x21] cleared = ([0x21], cleared)"
    by code_simp
  from cjk_inline_math_left_literal [where c = "0x5143" and b = True
      and s = "[DOLLAR, 0x35, 0x5143, DOLLAR, 0x21]" and len = 4 and tex = "[0x35, 0x5143]"
      and st = cleared and inp = "[DOLLAR, 0x35, 0x5143, DOLLAR]" and doc = "[]"
      and body = "[0x35, 0x5143]"]
    m a b c d rest
  show ?thesis by (simp del: replace_global.simps)
qed

text \<open>
  The test of the callback is the range \<open>U+4E00\<close> to \<open>U+9FA5\<close>, not every character outside
  the Latin script: a candidate whose body is a digit and the hiragana letter \<open>U+3042\<close>
  is replaced by a placeholder. And the test is made on the text as the earlier
  replacements have left it: in the span \<^verbatim>\<open>$x `U+5143` y$\<close> the ideograph stands in inline
  code, the body that the callback sees holds the token of that code in its place, and
  the span is replaced by a placeholder.
\<close>

theorem non_latin_math_counterexample:
  "(0x024F :: unit16) < 0x3042 \<and> \<not> str_includes [0x33, 0x3042] text_marker \<and>
   protectCodeAndMath [DOLLAR, 0x33, 0x3042, DOLLAR] cleared
     = (js ''MATHINLINE0ENDMATH'',
        \<lparr>counter = 1, codeMap = [], mathMap = [(js ''MATHINLINE0ENDMATH'', [0x33, 0x3042], False)]\<rparr>) \<and>
   list_ex in_cjk_range (js ''x '' @ [BACKTICK, 0x5143, BACKTICK] @ js '' y'') \<and>
   \<not> str_includes (js ''x '' @ [BACKTICK, 0x5143, BACKTICK] @ js '' y'') text_marker \<and>
   NL \<notin> set (js ''x '' @ [BACKTICK, 0x5143, BACKTICK] @ js '' y'') \<and>
   protectCodeAndMath ([DOLLAR] @ js ''x '' @ [BACKTICK, 0x5143, BACKTICK] @ js '' y'' @ [DOLLAR]) cleared
     = (js ''MATHINLINE1ENDMATH'',
        \<lparr>counter = 2, codeMap = [(js ''CODEINLINE0ENDCODE'', [BACKTICK, 0x5143, BACKTICK])],
         mathMap = [(js ''MATHINLINE1ENDMATH'', js ''x CODEINLINE0ENDCODE y'', False)]\<rparr>)"
  by code_simp

text \<open>
  C3. The code table is restored with \<open>processed.replace(key, value)\<close>, which reads \<open>$&\<close> in
  \<open>value\<close> as "the matched text". For the source \<^verbatim>\<open>`$&`\<close>, one inline code span, the
  encoder hands the parser the token instead of the content of the span.
\<close>

theorem code_placeholder_leaks:
  "protectCodeAndMath [BACKTICK, DOLLAR, AMPERSAND, BACKTICK] cleared
     = ([BACKTICK] @ js ''CODEINLINE0ENDCODE'' @ [BACKTICK],
        \<lparr>counter = 1,
         codeMap = [(js ''CODEINLINE0ENDCODE'', [BACKTICK, DOLLAR, AMPERSAND, BACKTICK])],
         mathMap = []\<rparr>)"
  by code_simp

lemma unat_digit_unit:
  assumes "d < 10"
  shows "unat (digit_unit (int d)) = 48 + d"
proof -
  have "unat (of_nat (48 + d) :: unit16) = (48 + d) mod 2 ^ LENGTH(16)"
    by (rule unat_of_nat)
  moreover have "(of_int (48 + int d) :: unit16) = of_nat (48 + d)"
    by simp
  ultimately show ?thesis
    using assms by (simp add: digit_unit_def)
qed

lemma is_digit_digit_unit: "d < 10 \<Longrightarrow> is_digit_unit (digit_unit (int d))"
  by (simp add: is_digit_unit_def word_le_nat_alt unat_digit_unit)

lemma digits_radix_10:
  "list_all is_digit_unit (digits_radix 10 (int n)) \<and> decode_digits (digits_radix 10 (int n)) = n"
proof (induction n rule: less_induct)
  case (less n)
  show ?case
  proof (cases "n < 10")
    case True
    then show ?thesis
      by (subst (1 2) digits_radix.simps)
        (simp add: is_digit_digit_unit decode_digits_def unat_digit_unit)
  next
    case False
    then have "n div 10 < n" by simp
    moreover have "int n div 10 = int (n div 10)" "int n mod 10 = int (n mod 10)"
      by (simp_all add: zdiv_int zmod_int)
    moreover have "n mod 10 < 10" by simp
    ultimately show ?thesis
      using less [of "n div 10"] False
      by (subst (1 2) digits_radix.simps)
        (simp add: is_digit_digit_unit decode_digits_def unat_digit_unit)
  qed
qed

lemma key_number_make_key:
  assumes "filter is_digit_unit (js label) = []" and "filter is_digit_unit (js ending) = []"
  shows "key_number (make_key label n ending) = n"
proof -
  from digits_radix_10 [of n]
  have "filter is_digit_unit (digits_radix 10 (int n)) = digits_radix 10 (int n)"
    by (simp add: list_all_iff)
  with assms digits_radix_10 [of n] show ?thesis
    by (simp add: key_number_def make_key_def nat_toString_def)
qed

lemma key_number_shape: "k \<in> set (token_shapes n) \<Longrightarrow> key_number k = n"
proof -
  have labels: "filter is_digit_unit (js ''CODEBLOCK'') = []"
    "filter is_digit_unit (js ''CODEINLINE'') = []"
    "filter is_digit_unit (js ''ESCAPEDDOLLAR'') = []"
    "filter is_digit_unit (js ''MATHBLOCK'') = []"
    "filter is_digit_unit (js ''MATHINLINE'') = []"
    "filter is_digit_unit (js ''ENDCODE'') = []"
    "filter is_digit_unit (js ''END'') = []"
    "filter is_digit_unit (js ''ENDMATH'') = []"
    by (simp_all add: js_def is_digit_unit_def)
  assume "k \<in> set (token_shapes n)"
  then show ?thesis
    by (auto simp: token_shapes_def key_number_make_key labels)
qed

lemma map_set_fresh: "k \<notin> fst ` set m \<Longrightarrow> map fst (map_set k x m) = map fst m @ [k]"
  by (induction m) auto

lemma fresh_token:
  assumes "tokens_numbered st" and "key \<in> set (token_shapes (counter st))"
  shows "key \<notin> set (tokens_of st)"
proof
  assume "key \<in> set (tokens_of st)"
  with assms(1) have "key_number key < counter st"
    by (simp add: tokens_numbered_def list_all_iff)
  with key_number_shape [OF assms(2)] show False by simp
qed

lemma tokens_numbered_insert:
  assumes inv: "tokens_numbered st" and key: "key \<in> set (token_shapes (counter st))"
    and toks: "set (tokens_of st') = insert key (set (tokens_of st))"
    and len: "length (tokens_of st') = Suc (length (tokens_of st))"
    and cnt: "counter st' = Suc (counter st)"
  shows "tokens_numbered st'"
proof -
  have n: "key_number key = counter st" by (rule key_number_shape [OF key])
  from inv have old: "\<And>k. k \<in> set (tokens_of st) \<Longrightarrow>
      key_number k < counter st \<and> k \<in> set (token_shapes (key_number k))"
    by (simp add: tokens_numbered_def list_all_iff)
  from inv have l: "length (tokens_of st) = counter st"
    and d: "distinct (map key_number (tokens_of st))"
    by (simp_all add: tokens_numbered_def)
  have all: "key_number k < counter st' \<and> k \<in> set (token_shapes (key_number k))"
    if "k \<in> set (tokens_of st')" for k
  proof (cases "k = key")
    case True
    with n key cnt show ?thesis by simp
  next
    case False
    with that toks have "k \<in> set (tokens_of st)" by simp
    from old [OF this] cnt show ?thesis by simp
  qed
  have "card (key_number ` set (tokens_of st')) = Suc (card (key_number ` set (tokens_of st)))"
  proof -
    have "key_number key \<notin> key_number ` set (tokens_of st)"
    proof
      assume "key_number key \<in> key_number ` set (tokens_of st)"
      then obtain k where "k \<in> set (tokens_of st)" "key_number k = key_number key" by auto
      with old [of k] n show False by simp
    qed
    then show ?thesis by (simp add: toks)
  qed
  also have "card (key_number ` set (tokens_of st)) = length (tokens_of st)"
    using d by (metis distinct_card length_map set_map)
  finally have "card (set (map key_number (tokens_of st'))) = length (map key_number (tokens_of st'))"
    by (simp add: len)
  then have "distinct (map key_number (tokens_of st'))"
    by (rule card_distinct)
  with all len l cnt show ?thesis
    by (simp add: tokens_numbered_def list_all_iff)
qed

lemma add_code_token:
  assumes inv: "tokens_numbered st" and key: "key \<in> set (token_shapes (counter st))"
  shows "tokens_numbered (st\<lparr>counter := Suc (counter st), codeMap := map_set key x (codeMap st)\<rparr>)"
proof (rule tokens_numbered_insert [OF inv key])
  from fresh_token [OF assms] have "key \<notin> fst ` set (codeMap st)"
    by (simp add: tokens_of_def)
  then have m: "map fst (map_set key x (codeMap st)) = map fst (codeMap st) @ [key]"
    by (rule map_set_fresh)
  show "set (tokens_of (st\<lparr>counter := Suc (counter st), codeMap := map_set key x (codeMap st)\<rparr>))
      = insert key (set (tokens_of st))"
    by (simp add: tokens_of_def m)
  show "length (tokens_of (st\<lparr>counter := Suc (counter st), codeMap := map_set key x (codeMap st)\<rparr>))
      = Suc (length (tokens_of st))"
    by (simp add: tokens_of_def m)
  show "counter (st\<lparr>counter := Suc (counter st), codeMap := map_set key x (codeMap st)\<rparr>)
      = Suc (counter st)"
    by simp
qed

lemma add_math_token:
  assumes inv: "tokens_numbered st" and key: "key \<in> set (token_shapes (counter st))"
  shows "tokens_numbered (st\<lparr>counter := Suc (counter st), mathMap := map_set key x (mathMap st)\<rparr>)"
proof (rule tokens_numbered_insert [OF inv key])
  from fresh_token [OF assms] have "key \<notin> fst ` set (mathMap st)"
    by (simp add: tokens_of_def)
  then have m: "map fst (map_set key x (mathMap st)) = map fst (mathMap st) @ [key]"
    by (rule map_set_fresh)
  show "set (tokens_of (st\<lparr>counter := Suc (counter st), mathMap := map_set key x (mathMap st)\<rparr>))
      = insert key (set (tokens_of st))"
    by (simp add: tokens_of_def m)
  show "length (tokens_of (st\<lparr>counter := Suc (counter st), mathMap := map_set key x (mathMap st)\<rparr>))
      = Suc (length (tokens_of st))"
    by (simp add: tokens_of_def m)
  show "counter (st\<lparr>counter := Suc (counter st), mathMap := map_set key x (mathMap st)\<rparr>)
      = Suc (counter st)"
    by simp
qed

lemma callbacks_keep_numbering:
  assumes "tokens_numbered st"
  shows "tokens_numbered (snd (code_block_cb match u st))"
    and "tokens_numbered (snd (inline_code_cb match u st))"
    and "tokens_numbered (snd (escaped_dollar_cb match u st))"
    and "tokens_numbered (snd (math_block_cb match caps st))"
    and "tokens_numbered (snd (inline_math_cb match tex st))"
proof -
  have shapes: "make_key ''CODEBLOCK'' (counter st) ''ENDCODE'' \<in> set (token_shapes (counter st))"
    "make_key ''CODEINLINE'' (counter st) ''ENDCODE'' \<in> set (token_shapes (counter st))"
    "make_key ''ESCAPEDDOLLAR'' (counter st) ''END'' \<in> set (token_shapes (counter st))"
    "make_key ''MATHBLOCK'' (counter st) ''ENDMATH'' \<in> set (token_shapes (counter st))"
    "make_key ''MATHINLINE'' (counter st) ''ENDMATH'' \<in> set (token_shapes (counter st))"
    by (simp_all add: token_shapes_def)
  from add_code_token [OF assms shapes(1)]
  show "tokens_numbered (snd (code_block_cb match u st))"
    by (simp add: code_block_cb_def Let_def)
  from add_code_token [OF assms shapes(2)]
  show "tokens_numbered (snd (inline_code_cb match u st))"
    by (simp add: inline_code_cb_def Let_def)
  from add_code_token [OF assms shapes(3)]
  show "tokens_numbered (snd (escaped_dollar_cb match u st))"
    by (simp add: escaped_dollar_cb_def Let_def)
  from add_math_token [OF assms shapes(4)]
  show "tokens_numbered (snd (math_block_cb match caps st))"
    by (cases caps) (simp add: math_block_cb_def Let_def)
  from add_math_token [OF assms shapes(5)] assms
  show "tokens_numbered (snd (inline_math_cb match tex st))"
    by (simp add: inline_math_cb_def Let_def)
qed

lemma stage_keeps_numbering:
  assumes "tokens_numbered st"
  shows "tokens_numbered (snd (replace_global m code_block_cb b skip inp st))"
    and "tokens_numbered (snd (replace_global m inline_code_cb b skip inp st))"
    and "tokens_numbered (snd (replace_global m escaped_dollar_cb b skip inp st))"
    and "tokens_numbered (snd (replace_global m' math_block_cb b skip inp st))"
    and "tokens_numbered (snd (replace_global m'' inline_math_cb b skip inp st))"
proof -
  show "tokens_numbered (snd (replace_global m code_block_cb b skip inp st))"
    by (rule replace_global_invariant [where P = tokens_numbered and f = code_block_cb])
      (rule callbacks_keep_numbering(1), assumption, rule assms)
  show "tokens_numbered (snd (replace_global m inline_code_cb b skip inp st))"
    by (rule replace_global_invariant [where P = tokens_numbered and f = inline_code_cb])
      (rule callbacks_keep_numbering(2), assumption, rule assms)
  show "tokens_numbered (snd (replace_global m escaped_dollar_cb b skip inp st))"
    by (rule replace_global_invariant [where P = tokens_numbered and f = escaped_dollar_cb])
      (rule callbacks_keep_numbering(3), assumption, rule assms)
  show "tokens_numbered (snd (replace_global m' math_block_cb b skip inp st))"
    by (rule replace_global_invariant [where P = tokens_numbered and f = math_block_cb])
      (rule callbacks_keep_numbering(4), assumption, rule assms)
  show "tokens_numbered (snd (replace_global m'' inline_math_cb b skip inp st))"
    by (rule replace_global_invariant [where P = tokens_numbered and f = inline_math_cb])
      (rule callbacks_keep_numbering(5), assumption, rule assms)
qed

lemma protect_stages_numbering:
  assumes "tokens_numbered st"
  shows "tokens_numbered (snd (protect_stages inp st))"
proof -
  obtain p1 st1 where r1: "replace_global match_code_block code_block_cb True 0 inp st = (p1, st1)"
    by (cases "replace_global match_code_block code_block_cb True 0 inp st")
  obtain p2 st2 where r2: "replace_global match_inline_code inline_code_cb True 0 p1 st1 = (p2, st2)"
    by (cases "replace_global match_inline_code inline_code_cb True 0 p1 st1")
  obtain p3 st3 where r3: "replace_global match_escaped_dollar escaped_dollar_cb True 0 p2 st2 = (p3, st3)"
    by (cases "replace_global match_escaped_dollar escaped_dollar_cb True 0 p2 st2")
  obtain p4 st4 where r4: "replace_global match_math_block math_block_cb True 0 p3 st3 = (p4, st4)"
    by (cases "replace_global match_math_block math_block_cb True 0 p3 st3")
  from stage_keeps_numbering(1) [OF assms, of match_code_block True 0 inp] r1
  have 1: "tokens_numbered st1" by simp
  from stage_keeps_numbering(2) [OF 1, of match_inline_code True 0 p1] r2
  have 2: "tokens_numbered st2" by simp
  from stage_keeps_numbering(3) [OF 2, of match_escaped_dollar True 0 p2] r3
  have 3: "tokens_numbered st3" by simp
  from stage_keeps_numbering(4) [OF 3, of match_math_block True 0 p3] r4
  have 4: "tokens_numbered st4" by simp
  from stage_keeps_numbering(5) [OF 4, of match_inline_math True 0 p4]
  show ?thesis
    by (simp add: protect_stages_def r1 r2 r3 r4)
qed

lemma protectCodeAndMath_numbering:
  "tokens_numbered st \<Longrightarrow> tokens_numbered (snd (protectCodeAndMath inp st))"
  by (simp add: protectCodeAndMath_def split_beta protect_stages_numbering)

text \<open>
  C6, as the code has it. In a pass that starts from cleared tables, every callback that
  makes a token enters a new one: the tokens of the two tables are pairwise distinct,
  there are as many as the counter has counted, and each has one of the five shapes with
  a number below the counter.
\<close>

theorem tokens_pairwise_distinct:
  "distinct (tokens_of (snd (protectCodeAndMath text cleared))) \<and>
   length (tokens_of (snd (protectCodeAndMath text cleared)))
     = counter (snd (protectCodeAndMath text cleared)) \<and>
   list_all (\<lambda>k. key_number k < counter (snd (protectCodeAndMath text cleared))
                 \<and> k \<in> set (token_shapes (key_number k)))
     (tokens_of (snd (protectCodeAndMath text cleared)))"
proof -
  have "tokens_numbered cleared"
    by (simp add: tokens_numbered_def tokens_of_def cleared_def)
  then have "tokens_numbered (snd (protectCodeAndMath text cleared))"
    by (rule protectCodeAndMath_numbering)
  then show ?thesis
    by (auto simp: tokens_numbered_def distinct_map)
qed

theorem tokens_pairwise_distinct_witness:
  "tokens_of (snd (protectCodeAndMath ([BACKTICK] @ js ''a'' @ [BACKTICK] @ js '' $x$'') cleared))
     = [js ''CODEINLINE0ENDCODE'', js ''MATHINLINE1ENDMATH''] \<and>
   distinct (tokens_of (snd (protectCodeAndMath ([BACKTICK] @ js ''a'' @ [BACKTICK] @ js '' $x$'') cleared))) \<and>
   counter (snd (protectCodeAndMath ([BACKTICK] @ js ''a'' @ [BACKTICK] @ js '' $x$'') cleared)) = 2"
proof -
  have t: "tokens_of (snd (protectCodeAndMath ([BACKTICK] @ js ''a'' @ [BACKTICK] @ js '' $x$'') cleared))
     = [js ''CODEINLINE0ENDCODE'', js ''MATHINLINE1ENDMATH'']"
    by code_simp
  from tokens_pairwise_distinct [of "[BACKTICK] @ js ''a'' @ [BACKTICK] @ js '' $x$''"] t
  show ?thesis by simp
qed

text \<open>
  A token is plain text that a document can spell. Here the document holds the text
  \<open>CODEINLINE0ENDCODE\<close> and one inline code span: the span gets that very token, and the
  restore step replaces the document's own text by the code.
\<close>

theorem token_collides_counterexample:
  "protectCodeAndMath (js ''CODEINLINE0ENDCODE '' @ [BACKTICK] @ js ''x'' @ [BACKTICK]) cleared
     = ([BACKTICK] @ js ''x'' @ [BACKTICK] @ js '' CODEINLINE0ENDCODE'',
        \<lparr>counter = 1, codeMap = [(js ''CODEINLINE0ENDCODE'', [BACKTICK] @ js ''x'' @ [BACKTICK])],
         mathMap = []\<rparr>) \<and>
   str_includes (js ''CODEINLINE0ENDCODE '' @ [BACKTICK] @ js ''x'' @ [BACKTICK]) (js ''CODEINLINE0ENDCODE'')"
  by code_simp


end
